theory Spec2Isabelle
  imports Complex_Main "HOL-Library.List_Lexorder" "HOL-Library.Char_ord"
    "HOL-Library.Product_Lexorder"
begin

section \<open>AXTP: the trust engine and the experience pool\<close>

text \<open>
  A shallow embedding of \<^verbatim>\<open>src/axtp.py\<close>: the classes \<^verbatim>\<open>TrustEngine\<close> and
  \<^verbatim>\<open>ExperiencePool\<close> with the record fields they read and write.

  Conventions of the embedding.
  \<^item> Python floats are real numbers, with real arithmetic: rounding error and NaN are
    outside the model. The range of a double is modelled where the source can leave it, in
    \<^verbatim>\<open>math.exp\<close>, which raises OverflowError on a large argument and returns zero
    on a large negative one.
  \<^item> An exception that leaves a method is a value: a method that mutates the pool before
    it raises returns the exception with the pool as the raise leaves it.
  \<^item> Python strings are \<open>string\<close>; \<open><\<close> on strings is the lexicographic order on
    character codes, as Python's is on code points.
  \<^item> A Python dict is an association list in insertion order: assignment to a present key
    keeps its position, assignment to a new key appends, \<^verbatim>\<open>del\<close> of an absent key raises
    KeyError.
  \<^item> Objects are values. The pool is the only holder of the records it stores; a method
    that mutates a stored object writes the new value back under the same key.
  \<^item> The wall clock and \<^verbatim>\<open>datetime.fromisoformat\<close> are library code: they are the
    parameter \<open>clock\<close>. One pool operation reads one instant.
  \<^item> The payload fields of a record that the pool never reads (steps, pivots, patterns,
    notes, recommendations, ...) are left out; \<^verbatim>\<open>result_summary\<close> stands for the
    projected payload.
\<close>

subsection \<open>Enums\<close>

datatype OutcomeStatus = SUCCESS | PARTIAL_SUCCESS | FAILURE | ABORTED

datatype ValidationStatus = PENDING | VALIDATED | DISPUTED

datatype ValidationType = CONFIRM | DISPUTE | AMEND

datatype ConflictResolution = LATEST_WINS | CONSENSUS | ADMIN_REVIEW

fun ValidationStatus_value :: "ValidationStatus \<Rightarrow> string" where
  "ValidationStatus_value PENDING = ''pending''"
| "ValidationStatus_value VALIDATED = ''validated''"
| "ValidationStatus_value DISPUTED = ''disputed''"

fun ValidationType_value :: "ValidationType \<Rightarrow> string" where
  "ValidationType_value CONFIRM = ''confirm''"
| "ValidationType_value DISPUTE = ''dispute''"
| "ValidationType_value AMEND = ''amend''"

subsection \<open>Data structures\<close>

record ExperienceRecord =
  agent_id :: string
  task_type :: string
  outcome_status :: OutcomeStatus
  xr_id :: string
  timestamp :: string
  result_summary :: string
  confidence_score :: real
  validation_status :: ValidationStatus
  validator_ids :: "string list"

text \<open>Exceptions that leave a modelled method.\<close>

datatype py_error = KeyError string | OverflowError

subsection \<open>Python built-ins\<close>

text \<open>\<^verbatim>\<open>d.get(k)\<close> and \<^verbatim>\<open>k in d\<close>: \<open>None\<close> is the absent key.\<close>

fun dict_get :: "('k \<times> 'v) list \<Rightarrow> 'k \<Rightarrow> 'v option" where
  "dict_get [] k = None"
| "dict_get ((k', v') # d) k = (if k' = k then Some v' else dict_get d k)"

text \<open>\<^verbatim>\<open>d[k] = v\<close>.\<close>

fun dict_set :: "('k \<times> 'v) list \<Rightarrow> 'k \<Rightarrow> 'v \<Rightarrow> ('k \<times> 'v) list" where
  "dict_set [] k v = [(k, v)]"
| "dict_set ((k', v') # d) k v =
     (if k' = k then (k, v) # d else (k', v') # dict_set d k v)"

text \<open>\<^verbatim>\<open>del d[k]\<close>: \<open>None\<close> is the KeyError of an absent key.\<close>

fun dict_del :: "('k \<times> 'v) list \<Rightarrow> 'k \<Rightarrow> ('k \<times> 'v) list option" where
  "dict_del [] k = None"
| "dict_del ((k', v') # d) k =
     (if k' = k then Some d else map_option ((#) (k', v')) (dict_del d k))"

text \<open>\<^verbatim>\<open>list(d.values())\<close>.\<close>

definition dict_values :: "('k \<times> 'v) list \<Rightarrow> 'v list" where
  "dict_values d = map snd d"

text \<open>
  \<^verbatim>\<open>min(x followed by xs, key=key)\<close> on a non-empty iterable: the first element whose
  key no later element undercuts.
\<close>

fun py_min :: "('a \<Rightarrow> 'k::linorder) \<Rightarrow> 'a \<Rightarrow> 'a list \<Rightarrow> 'a" where
  "py_min key best [] = best"
| "py_min key best (x # xs) = py_min key (if key x < key best then x else best) xs"

text \<open>\<^verbatim>\<open>s.startswith(pre)\<close>.\<close>

definition startswith :: "string \<Rightarrow> string \<Rightarrow> bool" where
  "startswith s pre = (take (length pre) s = pre)"

text \<open>\<^verbatim>\<open>xs[:n]\<close> for an integer \<open>n\<close>: a negative \<open>n\<close> counts from the end.\<close>

definition py_slice_to :: "'a list \<Rightarrow> int \<Rightarrow> 'a list" where
  "py_slice_to xs n =
     (if 0 \<le> n then take (nat n) xs else take (nat (int (length xs) + n)) xs)"

text \<open>
  \<^verbatim>\<open>round(x, ndigits)\<close>: the nearest multiple of \<open>10 ^ - ndigits\<close>, a tie going to the
  even one.
\<close>

definition py_round :: "real \<Rightarrow> nat \<Rightarrow> real" where
  "py_round x ndigits =
     (let y = x * 10 ^ ndigits;
          f = \<lfloor>y\<rfloor>;
          d = y - of_int f
      in (if d < 1 / 2 then of_int f
          else if 1 / 2 < d then of_int (f + 1)
          else if even f then of_int f else of_int (f + 1)) / 10 ^ ndigits)"

text \<open>
  \<^verbatim>\<open>math.exp(x)\<close> on a double. Above the largest double whose exponential is a double
  (\<open>0x1.62e42fefa39efp+9\<close>, just below the bound written here) it raises OverflowError;
  from the double \<open>-0x1.74910d52d3052p+9\<close> downwards (just below the bound written
  here) the result is rounded to zero, without an error.
\<close>

definition math_exp :: "real \<Rightarrow> py_error + real" where
  "math_exp x =
     (if 709.782712893384 < x then Inl OverflowError
      else if x < - 745.13321910194115 then Inr 0
      else Inr (exp x))"

text \<open>
  \<^verbatim>\<open>xs.sort(key=key, reverse=True)\<close>: descending by key, stable (equal keys keep their
  order).
\<close>

definition py_sort_reverse :: "('a \<Rightarrow> real) \<Rightarrow> 'a list \<Rightarrow> 'a list" where
  "py_sort_reverse key xs = sort_key (\<lambda>x. - key x) xs"

subsection \<open>The clock\<close>

text \<open>
  What \<^verbatim>\<open>datetime.fromisoformat\<close> makes of a string: a ValueError, a datetime without
  UTC offset, or a datetime with one (here as seconds on the UTC time line).
\<close>

datatype iso_parse = ParseError | NaiveTime | AwareTime real

record clock =
  fromisoformat :: "string \<Rightarrow> iso_parse"
  now :: real

subsection \<open>Trust engine\<close>

record TrustEngine =
  weights_reputation :: real
  weights_validation :: real
  weights_outcome :: real
  weights_recency :: real
  weights_consistency :: real
  decay_rate :: real
  agent_reputations :: "string \<rightharpoonup> real"
  outcome_feedback :: "string \<rightharpoonup> bool list"

definition TrustEngine_init :: TrustEngine where
  "TrustEngine_init =
     \<lparr>weights_reputation = 0.30, weights_validation = 0.25, weights_outcome = 0.25,
      weights_recency = 0.10, weights_consistency = 0.10, decay_rate = 0.01,
      agent_reputations = Map.empty, outcome_feedback = Map.empty\<rparr>"

definition get_agent_reputation :: "TrustEngine \<Rightarrow> string \<Rightarrow> real" where
  "get_agent_reputation te a =
     (case agent_reputations te a of None \<Rightarrow> 0.5 | Some r \<Rightarrow> r)"

definition update_agent_reputation :: "TrustEngine \<Rightarrow> string \<Rightarrow> real \<Rightarrow> TrustEngine" where
  "update_agent_reputation te a delta =
     (let current = get_agent_reputation te a
      in te\<lparr>agent_reputations := (agent_reputations te)(a \<mapsto> max 0 (min 1 (current + delta)))\<rparr>)"

text \<open>
  The \<^verbatim>\<open>try\<close> block: \<^verbatim>\<open>fromisoformat\<close> raises ValueError on a malformed string, and
  subtracting a datetime without offset from the offset-aware \<^verbatim>\<open>now\<close> raises TypeError;
  both are caught. The OverflowError of \<^verbatim>\<open>math.exp\<close> is not among the exceptions the
  \<^verbatim>\<open>except\<close> clause names: it leaves the method.
\<close>

definition compute_recency_factor :: "clock \<Rightarrow> TrustEngine \<Rightarrow> string \<Rightarrow> py_error + real" where
  "compute_recency_factor clk te ts =
     (case fromisoformat clk ts of
        ParseError \<Rightarrow> Inr 0.5
      | NaiveTime \<Rightarrow> Inr 0.5
      | AwareTime xr_time \<Rightarrow>
          (let age_days = (now clk - xr_time) / 86400
           in math_exp (- decay_rate te * age_days)))"

definition compute_validation_score :: "ExperienceRecord \<Rightarrow> real" where
  "compute_validation_score xr =
     (if validation_status xr = VALIDATED
        then min 1 (0.7 + 0.1 * real (length (validator_ids xr)))
      else if validation_status xr = DISPUTED
        then max 0 (0.3 - 0.1 * real (length (validator_ids xr)))
      else 0.5)"

definition compute_outcome_score :: "TrustEngine \<Rightarrow> string \<Rightarrow> real" where
  "compute_outcome_score te i =
     (let feedback = (case outcome_feedback te i of None \<Rightarrow> [] | Some fb \<Rightarrow> fb)
      in if feedback = [] then 0.5
         else real (length (filter (\<lambda>f. f) feedback)) / real (length feedback))"

text \<open>
  \<^verbatim>\<open>pool_xrs\<close> is a list; \<^verbatim>\<open>None\<close> and the empty list take the same branch. An
  exception of the recency computation passes through.
\<close>

definition compute_trust_score ::
  "clock \<Rightarrow> TrustEngine \<Rightarrow> ExperienceRecord \<Rightarrow> ExperienceRecord list \<Rightarrow> py_error + real" where
  "compute_trust_score clk te xr pool_xrs =
     (let reputation = get_agent_reputation te (agent_id xr);
          validation = compute_validation_score xr;
          outcome = compute_outcome_score te (xr_id xr)
      in case compute_recency_factor clk te (timestamp xr) of
           Inl e \<Rightarrow> Inl e
         | Inr recency \<Rightarrow>
     (let same_type =
            filter (\<lambda>x. task_type x = task_type xr \<and> xr_id x \<noteq> xr_id xr) pool_xrs;
          consistency =
            (if pool_xrs \<noteq> [] \<and> same_type \<noteq> []
             then real (length (filter (\<lambda>x. outcome_status x = outcome_status xr) same_type))
                    / real (length same_type)
             else 0.5);
          score =
            weights_reputation te * reputation
            + weights_validation te * validation
            + weights_outcome te * outcome
            + weights_recency te * recency
            + weights_consistency te * consistency
      in Inr (py_round (max 0 (min 1 score)) 4)))"

definition record_feedback :: "TrustEngine \<Rightarrow> string \<Rightarrow> bool \<Rightarrow> TrustEngine" where
  "record_feedback te i was_helpful =
     te\<lparr>outcome_feedback := (outcome_feedback te)
          (i \<mapsto> (case outcome_feedback te i of None \<Rightarrow> [] | Some fb \<Rightarrow> fb) @ [was_helpful])\<rparr>"

subsection \<open>Experience pool\<close>

record AuditEntry =
  log_timestamp :: real
  operation :: string
  actor :: string
  xr_ids :: "string list"
  outcome :: string

record ExperiencePool =
  pool_id :: string
  pool_name :: string
  scope :: string
  validation_required :: bool
  min_confidence_threshold :: real
  conflict_resolution :: ConflictResolution
  max_records :: int
  records :: "(string \<times> ExperienceRecord) list"
  audit_log :: "AuditEntry list"
  trust_engine :: TrustEngine

definition ExperiencePool_init :: "string \<Rightarrow> string \<Rightarrow> int \<Rightarrow> ExperiencePool" where
  "ExperiencePool_init pid name cap =
     \<lparr>pool_id = pid, pool_name = name, scope = ''global'', validation_required = True,
      min_confidence_threshold = 0.3, conflict_resolution = LATEST_WINS, max_records = cap,
      records = [], audit_log = [], trust_engine = TrustEngine_init\<rparr>"

text \<open>What \<^verbatim>\<open>deposit\<close> returns: the rejection, or the receipt.\<close>

datatype deposit_receipt =
  DepositRejected string
| DepositAccepted string string real real

fun deposit_status :: "deposit_receipt \<Rightarrow> string" where
  "deposit_status (DepositRejected reason) = ''rejected''"
| "deposit_status (DepositAccepted i pid c t) = ''accepted''"

text \<open>What \<^verbatim>\<open>validate\<close> returns.\<close>

datatype validate_result =
  ValidateError string
| ValidateRejected string
| ValidateAccepted string real string

fun validate_status :: "validate_result \<Rightarrow> string" where
  "validate_status (ValidateError reason) = ''error''"
| "validate_status (ValidateRejected reason) = ''rejected''"
| "validate_status (ValidateAccepted i c s) = ''accepted''"

text \<open>One entry of the list \<^verbatim>\<open>retrieve\<close> returns (the learnings are payload).\<close>

record RetrievedItem =
  item_xr_id :: string
  relevance_score :: real
  item_confidence_score :: real
  item_task_type :: string
  item_outcome_status :: OutcomeStatus
  item_result_summary :: string

text \<open>\<^verbatim>\<open>str(n)\<close> of a length, for the f-string of \<^verbatim>\<open>retrieve\<close>.\<close>

fun py_str_nat :: "nat \<Rightarrow> string" where
  "py_str_nat n =
     (if n < 10 then [char_of (48 + n)]
      else py_str_nat (n div 10) @ [char_of (48 + n mod 10)])"

text \<open>\<^verbatim>\<open>_log\<close>.\<close>

definition pool_log ::
  "clock \<Rightarrow> ExperiencePool \<Rightarrow> string \<Rightarrow> string \<Rightarrow> string list \<Rightarrow> string \<Rightarrow> ExperiencePool" where
  "pool_log clk p op who ids res =
     p\<lparr>audit_log := audit_log p @
         [\<lparr>log_timestamp = now clk, operation = op, actor = who, xr_ids = ids,
           outcome = res\<rparr>]\<rparr>"

text \<open>\<^verbatim>\<open>_evict_oldest\<close>.\<close>

definition evict_oldest :: "clock \<Rightarrow> ExperiencePool \<Rightarrow> py_error + ExperiencePool" where
  "evict_oldest clk p =
     (case dict_values (records p) of
        [] \<Rightarrow> Inr p
      | x # xs \<Rightarrow>
          (let worst = py_min (\<lambda>xr. (confidence_score xr, timestamp xr)) x xs
           in case dict_del (records p) (xr_id worst) of
                None \<Rightarrow> Inl (KeyError (xr_id worst))
              | Some recs \<Rightarrow>
                  Inr (pool_log clk (p\<lparr>records := recs\<rparr>) ''evict'' ''system''
                         [xr_id worst] ''capacity limit reached'')))"

text \<open>
  \<^verbatim>\<open>deposit\<close>. The record passed in is mutated (its score is written), so it is returned
  beside the receipt and the pool. A KeyError of the eviction leaves the pool as it was;
  an exception of the scoring leaves the pool as the capacity check left it.
\<close>

definition deposit ::
  "clock \<Rightarrow> ExperiencePool \<Rightarrow> ExperienceRecord
     \<Rightarrow> (py_error \<times> ExperiencePool)
          + (deposit_receipt \<times> ExperienceRecord \<times> ExperiencePool)" where
  "deposit clk p xr =
     (if agent_id xr = [] \<or> task_type xr = []
      then Inr (DepositRejected ''Missing required fields (agent_id, task_type)'', xr, p)
      else
        case (if max_records p \<le> int (length (records p)) then evict_oldest clk p else Inr p) of
          Inl e \<Rightarrow> Inl (e, p)
        | Inr p1 \<Rightarrow>
            (case compute_trust_score clk (trust_engine p1) xr (dict_values (records p1)) of
               Inl e \<Rightarrow> Inl (e, p1)
             | Inr score \<Rightarrow>
                 (let xr' = xr\<lparr>confidence_score := score\<rparr>;
                      p2 = p1\<lparr>records := dict_set (records p1) (xr_id xr') xr'\<rparr>;
                      p3 = pool_log clk p2 ''deposit'' (agent_id xr') [xr_id xr'] ''accepted''
                  in Inr (DepositAccepted (xr_id xr') (pool_id p3) (confidence_score xr')
                            (now clk),
                          xr', p3))))"

text \<open>The pool as a deposit leaves it, whether the call returns or raises.\<close>

definition deposit_pool ::
  "(py_error \<times> ExperiencePool) + (deposit_receipt \<times> ExperienceRecord \<times> ExperiencePool)
     \<Rightarrow> ExperiencePool" where
  "deposit_pool res = (case res of Inl (e, p') \<Rightarrow> p' | Inr (r, x, p') \<Rightarrow> p')"

text \<open>
  The loop of \<^verbatim>\<open>retrieve\<close> that rewrites the score of every candidate. A candidate is
  an item of the dict, the stored object under its key; each score is computed against
  the stored objects as they are at that moment, and written to the object. The loop
  returns the candidates as they are after it, or the exception that stopped it, and the
  store as it is then.
\<close>

fun recompute_scores ::
  "clock \<Rightarrow> TrustEngine \<Rightarrow> (string \<times> ExperienceRecord) list
     \<Rightarrow> (string \<times> ExperienceRecord) list
     \<Rightarrow> (py_error + ExperienceRecord list) \<times> (string \<times> ExperienceRecord) list" where
  "recompute_scores clk te [] recs = (Inr [], recs)"
| "recompute_scores clk te ((k, xr) # cs) recs =
     (case compute_trust_score clk te xr (dict_values recs) of
        Inl e \<Rightarrow> (Inl e, recs)
      | Inr score \<Rightarrow>
          (let xr' = xr\<lparr>confidence_score := score\<rparr>;
               (rest, recs') = recompute_scores clk te cs (dict_set recs k xr')
           in (case rest of Inl e \<Rightarrow> Inl e | Inr cs' \<Rightarrow> Inr (xr' # cs'), recs')))"

text \<open>
  The loop of \<^verbatim>\<open>retrieve\<close> that pairs every candidate with its relevance, for the
  recency weight \<open>w\<close>.
\<close>

fun score_candidates ::
  "clock \<Rightarrow> TrustEngine \<Rightarrow> real \<Rightarrow> ExperienceRecord list
     \<Rightarrow> py_error + (real \<times> ExperienceRecord) list" where
  "score_candidates clk te w [] = Inr []"
| "score_candidates clk te w (xr # xs) =
     (case compute_recency_factor clk te (timestamp xr) of
        Inl e \<Rightarrow> Inl e
      | Inr recency \<Rightarrow>
          (case score_candidates clk te w xs of
             Inl e \<Rightarrow> Inl e
           | Inr scored \<Rightarrow> Inr (((1 - w) * confidence_score xr + w * recency, xr) # scored)))"

text \<open>
  \<^verbatim>\<open>retrieve\<close>. \<^verbatim>\<open>if task_type:\<close> is false for \<^verbatim>\<open>None\<close> and for the empty string;
  \<^verbatim>\<open>if outcome_filter:\<close> is false for \<^verbatim>\<open>None\<close> only (every member of the enum is a
  non-empty string). An exception leaves the scores that the first loop has written so
  far, and no audit entry.
\<close>

definition retrieve ::
  "clock \<Rightarrow> ExperiencePool \<Rightarrow> string option \<Rightarrow> real option \<Rightarrow> int \<Rightarrow> real
     \<Rightarrow> OutcomeStatus option \<Rightarrow> string
     \<Rightarrow> (py_error + RetrievedItem list) \<times> ExperiencePool" where
  "retrieve clk p task_type_arg min_confidence_arg max_results recency_weight outcome_filter who =
     (let min_confidence =
            (case min_confidence_arg of None \<Rightarrow> min_confidence_threshold p | Some m \<Rightarrow> m);
          candidates = records p;
          candidates =
            (case task_type_arg of
               None \<Rightarrow> candidates
             | Some tt \<Rightarrow>
                 if tt = [] then candidates
                 else filter (\<lambda>(k, xr). task_type xr = tt
                                 \<or> startswith (task_type xr) (tt @ ''.'')) candidates);
          candidates =
            (case outcome_filter of
               None \<Rightarrow> candidates
             | Some st \<Rightarrow> filter (\<lambda>(k, xr). outcome_status xr = st) candidates);
          (rescored, recs) = recompute_scores clk (trust_engine p) candidates (records p)
      in case rescored of
           Inl e \<Rightarrow> (Inl e, p\<lparr>records := recs\<rparr>)
         | Inr candidates \<Rightarrow>
     (let candidates = filter (\<lambda>xr. min_confidence \<le> confidence_score xr) candidates
      in case score_candidates clk (trust_engine p) recency_weight candidates of
           Inl e \<Rightarrow> (Inl e, p\<lparr>records := recs\<rparr>)
         | Inr scored \<Rightarrow>
     (let scored = py_sort_reverse fst scored;
          results =
            map (\<lambda>(rel, xr).
                  \<lparr>item_xr_id = xr_id xr, relevance_score = py_round rel 4,
                   item_confidence_score = confidence_score xr, item_task_type = task_type xr,
                   item_outcome_status = outcome_status xr,
                   item_result_summary = result_summary xr\<rparr>)
              (py_slice_to scored max_results)
      in (Inr results,
          pool_log clk (p\<lparr>records := recs\<rparr>) ''retrieve'' who (map item_xr_id results)
            (''returned '' @ py_str_nat (length results) @ '' results'')))))"

text \<open>
  \<^verbatim>\<open>validate\<close>. The stored object is mutated in place; the score is recomputed against
  the stored objects with the mutation already in them. An exception of the scoring
  leaves the mutation and the new reputation, and neither a new score nor an audit entry.
\<close>

definition validate ::
  "clock \<Rightarrow> ExperiencePool \<Rightarrow> string \<Rightarrow> string \<Rightarrow> ValidationType \<Rightarrow> string
     \<Rightarrow> (py_error + validate_result) \<times> ExperiencePool" where
  "validate clk p i validator_id validation_type evidence =
     (case dict_get (records p) i of
        None \<Rightarrow> (Inr (ValidateError ''XR not found''), p)
      | Some xr \<Rightarrow>
          if validator_id = agent_id xr
          then (Inr (ValidateRejected ''Self-validation not permitted''), p)
          else
            (let (xr1, te1) =
                   (case validation_type of
                      CONFIRM \<Rightarrow>
                        (let xa = xr\<lparr>validator_ids := validator_ids xr @ [validator_id]\<rparr>;
                             xb = (if 2 \<le> length (validator_ids xa)
                                   then xa\<lparr>validation_status := VALIDATED\<rparr> else xa)
                         in (xb, update_agent_reputation (trust_engine p) (agent_id xb) 0.05))
                    | DISPUTE \<Rightarrow>
                        (let xa = xr\<lparr>validator_ids := validator_ids xr @ [validator_id]\<rparr>;
                             xb = xa\<lparr>validation_status := DISPUTED\<rparr>
                         in (xb, update_agent_reputation (trust_engine p) (agent_id xb) (- 0.05)))
                    | AMEND \<Rightarrow>
                        (xr\<lparr>validator_ids := validator_ids xr @ [validator_id]\<rparr>,
                         trust_engine p));
                 recs1 = dict_set (records p) i xr1;
                 p1 = p\<lparr>records := recs1, trust_engine := te1\<rparr>
             in case compute_trust_score clk te1 xr1 (dict_values recs1) of
                  Inl e \<Rightarrow> (Inl e, p1)
                | Inr score \<Rightarrow>
                    (let xr2 = xr1\<lparr>confidence_score := score\<rparr>;
                         p2 = p1\<lparr>records := dict_set recs1 i xr2\<rparr>;
                         p3 = pool_log clk p2 ''validate'' validator_id [i]
                                (ValidationType_value validation_type @ '': ''
                                   @ take 100 evidence)
                     in (Inr (ValidateAccepted i (confidence_score xr2)
                                (ValidationStatus_value (validation_status xr2))), p3))))"

text \<open>
  The stored records form a dict whose every key is the id of the record under it:
  the only assignment in the source is \<^verbatim>\<open>self._records[xr.xr_id] = xr\<close>.
\<close>

definition pool_wf :: "ExperiencePool \<Rightarrow> bool" where
  "pool_wf p =
     (distinct (map fst (records p)) \<and> list_all (\<lambda>(k, xr). xr_id xr = k) (records p))"

subsection \<open>Example data\<close>

text \<open>
  A clock at 2025-11-04T00:00:00Z that parses five strings: instants a hundred days ahead,
  ten days back, a hundred thousand days ahead (the year 2299) and a hundred thousand
  days back (the year 1752), and one datetime without offset.
\<close>

definition example_clock :: clock where
  "example_clock =
     \<lparr>fromisoformat =
        (\<lambda>s. if s = ''2026-02-12T00:00:00+00:00'' then AwareTime 1770854400
             else if s = ''2025-10-25T00:00:00+00:00'' then AwareTime 1761350400
             else if s = ''2299-08-20T00:00:00+00:00'' then AwareTime 10402214400
             else if s = ''1752-01-20T00:00:00+00:00'' then AwareTime (- 6877785600)
             else if s = ''2025-10-25T00:00:00'' then NaiveTime
             else ParseError),
      now = 1762214400\<rparr>"

definition example_record :: ExperienceRecord where
  "example_record =
     \<lparr>agent_id = ''alice'', task_type = ''x.y'', outcome_status = SUCCESS, xr_id = ''xr-1'',
      timestamp = ''2025-10-25T00:00:00+00:00'', result_summary = ''done'',
      confidence_score = 0.5, validation_status = PENDING, validator_ids = []\<rparr>"

text \<open>A pool of capacity one that holds the example record: it is at capacity.\<close>

definition example_pool :: ExperiencePool where
  "example_pool = (ExperiencePool_init ''pool-1'' ''demo'' 1)\<lparr>records := [(''xr-1'', example_record)]\<rparr>"

section \<open>Properties\<close>

subsection \<open>The dict operations\<close>

lemma dict_get_dict_set:
  "dict_get (dict_set d k v) k' = (if k' = k then Some v else dict_get d k')"
  by (induction d) auto

lemma length_dict_set:
  "length (dict_set d k v) = (if dict_get d k = None then Suc (length d) else length d)"
  by (induction d) (auto split: if_splits)

lemma dict_set_dict_set: "dict_set (dict_set d k v) k w = dict_set d k w"
  by (induction d k v rule: dict_set.induct) auto

lemma dict_get_None_iff: "dict_get d k = None \<longleftrightarrow> k \<notin> fst ` set d"
  by (induction d k rule: dict_get.induct) auto

lemma dict_get_Some_mem: "dict_get d k = Some v \<Longrightarrow> (k, v) \<in> set d"
  by (induction d k rule: dict_get.induct) (auto split: if_splits)

subsection \<open>Rounding and the composite score\<close>

lemma py_round_cases:
  "py_round x n = of_int \<lfloor>x * 10 ^ n\<rfloor> / 10 ^ n
   \<or> py_round x n = of_int (\<lfloor>x * 10 ^ n\<rfloor> + 1) / 10 ^ n"
  by (simp add: py_round_def Let_def)

lemma py_round_of_int: "py_round (of_int k / 10 ^ n) n = of_int k / 10 ^ n"
  by (simp add: py_round_def Let_def)

lemma py_round_mono:
  assumes "x \<le> y"
  shows "py_round x n \<le> py_round y n"
proof -
  define R :: "real \<Rightarrow> int" where
    "R = (\<lambda>a. if a - of_int \<lfloor>a\<rfloor> < 1 / 2 then \<lfloor>a\<rfloor>
              else if 1 / 2 < a - of_int \<lfloor>a\<rfloor> then \<lfloor>a\<rfloor> + 1
              else if even \<lfloor>a\<rfloor> then \<lfloor>a\<rfloor> else \<lfloor>a\<rfloor> + 1)"
  have R_between: "\<lfloor>a\<rfloor> \<le> R a \<and> R a \<le> \<lfloor>a\<rfloor> + 1" for a
    by (simp add: R_def)
  have R_mono: "R a \<le> R b" if ab: "a \<le> b" for a b
  proof (cases "\<lfloor>a\<rfloor> = \<lfloor>b\<rfloor>")
    case True
    have "a - of_int \<lfloor>a\<rfloor> \<le> b - of_int \<lfloor>b\<rfloor>" using ab True by simp
    then show ?thesis unfolding R_def using True
      by (simp split: if_splits)
  next
    case False
    with floor_mono [OF ab] have "\<lfloor>a\<rfloor> + 1 \<le> \<lfloor>b\<rfloor>" by simp
    with R_between [of a] R_between [of b] show ?thesis by linarith
  qed
  let ?s = "(10::real) ^ n"
  have pos: "0 < ?s" by simp
  have eq: "py_round z n = of_int (R (z * ?s)) / ?s" for z
    by (simp add: py_round_def Let_def R_def)
  have "x * ?s \<le> y * ?s" using assms pos by simp
  then have "R (x * ?s) \<le> R (y * ?s)" by (rule R_mono)
  then have "(of_int (R (x * ?s)) :: real) \<le> of_int (R (y * ?s))" by (simp only: of_int_le_iff)
  then show ?thesis unfolding eq using pos by (simp add: divide_right_mono)
qed

lemma py_round_unit_interval:
  assumes "0 \<le> x" and "x \<le> 1"
  shows "0 \<le> py_round x n \<and> py_round x n \<le> 1"
proof -
  have "py_round 0 n \<le> py_round x n" using assms(1) by (rule py_round_mono)
  moreover have "py_round x n \<le> py_round 1 n" using assms(2) by (rule py_round_mono)
  moreover have "py_round 0 n = 0" using py_round_of_int [of 0 n] by simp
  moreover have "py_round 1 n = 1" using py_round_of_int [of "10 ^ n" n] by simp
  ultimately show ?thesis by simp
qed

lemma py_round_error: "\<bar>py_round x n - x\<bar> \<le> 1 / (2 * 10 ^ n)"
proof -
  let ?s = "(10::real) ^ n"
  have pos: "0 < ?s" by simp
  have fa: "of_int \<lfloor>x * ?s\<rfloor> \<le> x * ?s" "x * ?s < of_int \<lfloor>x * ?s\<rfloor> + 1" by linarith+
  have "\<bar>py_round x n * ?s - x * ?s\<bar> \<le> 1 / 2"
    using fa by (auto simp add: py_round_def Let_def)
  then have "\<bar>(py_round x n - x) * ?s\<bar> \<le> 1 / 2" by (simp add: algebra_simps)
  then have "\<bar>py_round x n - x\<bar> * ?s \<le> 1 / 2" using pos by (simp add: abs_mult)
  then show ?thesis using pos by (simp add: field_simps)
qed

lemma py_round_idem: "py_round (py_round x n) n = py_round x n"
  using py_round_cases [of x n] py_round_of_int by metis

subsection \<open>The exponential and the recency factor\<close>

lemma math_exp_cases:
  "math_exp x = Inl OverflowError \<and> 709.782712893384 < x
   \<or> math_exp x = Inr 0 \<and> x < - 745.13321910194115
   \<or> math_exp x = Inr (exp x) \<and> - 745.13321910194115 \<le> x \<and> x \<le> 709.782712893384"
  by (simp add: math_exp_def)

lemma compute_recency_factor_cases:
  "compute_recency_factor clk te ts = Inl OverflowError
   \<or> (\<exists>r. compute_recency_factor clk te ts = Inr r \<and> 0 \<le> r)"
proof (cases "fromisoformat clk ts")
  case (AwareTime t)
  then show ?thesis
    using math_exp_cases [of "- decay_rate te * ((now clk - t) / 86400)"]
    by (auto simp add: compute_recency_factor_def Let_def)
next
  case ParseError
  then have "compute_recency_factor clk te ts = Inr 0.5" by (simp add: compute_recency_factor_def)
  then show ?thesis by (intro disjI2 exI [of _ "0.5"]) simp
next
  case NaiveTime
  then have "compute_recency_factor clk te ts = Inr 0.5" by (simp add: compute_recency_factor_def)
  then show ?thesis by (intro disjI2 exI [of _ "0.5"]) simp
qed

lemma compute_recency_factor_decay:
  "decay_rate te' = decay_rate te
     \<Longrightarrow> compute_recency_factor clk te' ts = compute_recency_factor clk te ts"
  by (cases "fromisoformat clk ts") (simp_all add: compute_recency_factor_def)

lemma decay_rate_update_agent_reputation [simp]:
  "decay_rate (update_agent_reputation te a delta) = decay_rate te"
  by (simp add: update_agent_reputation_def Let_def)

subsection \<open>The composite score\<close>

lemma compute_trust_score_Inl:
  assumes "compute_recency_factor clk te (timestamp xr) = Inl e"
  shows "compute_trust_score clk te xr pool_xrs = Inl e"
  unfolding compute_trust_score_def Let_def assms sum.case by (rule refl)

lemma compute_trust_score_Inr:
  assumes "compute_recency_factor clk te (timestamp xr) = Inr rc"
  shows "\<exists>s. compute_trust_score clk te xr pool_xrs = Inr (py_round (max 0 (min 1 s)) 4)"
  unfolding compute_trust_score_def Let_def assms sum.case by (intro exI) (rule refl)

text \<open>Whether the score is computed does not depend on the pool, only on the recency.\<close>

lemma compute_trust_score_returns_iff:
  "(\<exists>c. compute_trust_score clk te xr pool_xrs = Inr c)
     \<longleftrightarrow> (\<exists>rc. compute_recency_factor clk te (timestamp xr) = Inr rc)"
proof (cases "compute_recency_factor clk te (timestamp xr)")
  case (Inl e)
  then show ?thesis using compute_trust_score_Inl [OF Inl, of pool_xrs] by simp
next
  case (Inr rc)
  then show ?thesis using compute_trust_score_Inr [OF Inr, of pool_xrs] by auto
qed

lemma compute_trust_score_raises:
  assumes "compute_trust_score clk te xr pool_xrs = Inl e"
  shows "e = OverflowError \<and> compute_recency_factor clk te (timestamp xr) = Inl OverflowError"
proof (cases "compute_recency_factor clk te (timestamp xr)")
  case (Inl e')
  then have "e' = OverflowError" using compute_recency_factor_cases [of clk te "timestamp xr"] by simp
  with Inl assms compute_trust_score_Inl [OF Inl, of pool_xrs] show ?thesis by simp
next
  case (Inr rc)
  with assms compute_trust_score_Inr [OF Inr, of pool_xrs] show ?thesis by auto
qed

text \<open>
  A score that is returned lies in \<open>[0, 1]\<close> and is rounded to four decimal places: it
  is a multiple of \<open>1 / 10 ^ 4\<close>, and rounding it again leaves it as it is.
\<close>

lemma compute_trust_score_range:
  assumes "compute_trust_score clk te xr pool_xrs = Inr c"
  shows "0 \<le> c \<and> c \<le> 1
       \<and> (\<exists>k::int. 0 \<le> k \<and> k \<le> 10000 \<and> c = of_int k / 10 ^ 4)
       \<and> py_round c 4 = c"
proof -
  obtain rc where "compute_recency_factor clk te (timestamp xr) = Inr rc"
    using assms compute_trust_score_returns_iff [of clk te xr pool_xrs] by blast
  then obtain s where s: "c = py_round (max 0 (min 1 s)) 4"
    using compute_trust_score_Inr [of clk te xr rc pool_xrs] assms by auto
  have b: "0 \<le> c" "c \<le> 1"
    using py_round_unit_interval [of "max 0 (min 1 s)" 4] by (simp_all add: s)
  obtain k :: int where k: "c = of_int k / 10 ^ 4"
    using py_round_cases [of "max 0 (min 1 s)" 4] s by metis
  have "0 \<le> k \<and> k \<le> 10000" using b k by simp
  moreover have "py_round c 4 = c" using s py_round_idem by simp
  ultimately show ?thesis using b k by blast
qed

text \<open>
  C6. The claim is right and the code misses it: for a record whose timestamp lies far
  enough ahead of the clock, the score is not computed at all. With the default decay
  rate and a timestamp a hundred thousand days ahead, the argument of the exponential is
  \<open>1000\<close>, \<^verbatim>\<open>math.exp\<close> raises OverflowError, the \<^verbatim>\<open>except\<close> clause of the recency
  computation does not name it, and it leaves \<^verbatim>\<open>compute_trust_score\<close> before the clamp
  and the rounding are reached.
\<close>

theorem compute_trust_score_overflow:
  "compute_trust_score example_clock TrustEngine_init
     (example_record\<lparr>timestamp := ''2299-08-20T00:00:00+00:00''\<rparr>) [example_record]
   = Inl OverflowError"
proof -
  have "compute_recency_factor example_clock TrustEngine_init ''2299-08-20T00:00:00+00:00''
      = Inl OverflowError"
    by (simp add: compute_recency_factor_def example_clock_def TrustEngine_init_def
        math_exp_def)
  then show ?thesis by (intro compute_trust_score_Inl) simp
qed

subsection \<open>Recency\<close>

text \<open>
  C7. The claim is right and the code misses it in three ways, shown here on the example
  clock with the default decay rate. A timestamp a hundred thousand days ahead raises
  OverflowError, which the \<^verbatim>\<open>except\<close> clause does not name, where the claim has no
  error. A timestamp a hundred thousand days back gives exactly zero, outside \<open>(0, 1]\<close>.
  A timestamp a hundred days ahead gives \<open>exp 1\<close>, above one: nothing clamps the age or
  the result.
\<close>

theorem recency_factor_failing_inputs:
  "compute_recency_factor example_clock TrustEngine_init ''2299-08-20T00:00:00+00:00''
     = Inl OverflowError
   \<and> compute_recency_factor example_clock TrustEngine_init ''1752-01-20T00:00:00+00:00''
     = Inr 0
   \<and> compute_recency_factor example_clock TrustEngine_init ''2026-02-12T00:00:00+00:00''
     = Inr (exp 1)
   \<and> (1::real) < exp 1"
  by (simp add: compute_recency_factor_def example_clock_def TrustEngine_init_def math_exp_def)

text \<open>
  What the code does compute: one half for a malformed timestamp and for one without UTC
  offset; for a timestamp with offset, the exponential of \<open>- decay_rate * age_days\<close>
  where that argument is in the range of \<^verbatim>\<open>math.exp\<close>, a value in \<open>(0, 1]\<close> when
  moreover the argument is not positive.
\<close>

lemma recency_factor_computed:
  "(fromisoformat clk ts = ParseError \<or> fromisoformat clk ts = NaiveTime
      \<longrightarrow> compute_recency_factor clk te ts = Inr 0.5)
   \<and> (\<forall>t. fromisoformat clk ts = AwareTime t
           \<and> - 745.13321910194115 \<le> - decay_rate te * ((now clk - t) / 86400)
           \<and> - decay_rate te * ((now clk - t) / 86400) \<le> 709.782712893384
         \<longrightarrow> compute_recency_factor clk te ts
               = Inr (exp (- decay_rate te * ((now clk - t) / 86400)))
           \<and> (- decay_rate te * ((now clk - t) / 86400) \<le> 0
                \<longrightarrow> exp (- decay_rate te * ((now clk - t) / 86400)) \<le> 1))"
  by (cases "fromisoformat clk ts")
     (simp_all add: compute_recency_factor_def Let_def math_exp_def)

lemma example_recency:
  "compute_recency_factor example_clock TrustEngine_init ''2025-10-25T00:00:00+00:00''
     = Inr (exp (- (1 / 10)))"
  by (simp add: compute_recency_factor_def example_clock_def TrustEngine_init_def math_exp_def)

subsection \<open>Logging\<close>

lemma pool_log_fields [simp]:
  "records (pool_log clk p op who ids res) = records p"
  "max_records (pool_log clk p op who ids res) = max_records p"
  "trust_engine (pool_log clk p op who ids res) = trust_engine p"
  "pool_id (pool_log clk p op who ids res) = pool_id p"
  "min_confidence_threshold (pool_log clk p op who ids res) = min_confidence_threshold p"
  by (simp_all add: pool_log_def)

lemma audit_log_pool_log:
  "audit_log (pool_log clk p op who ids res) =
     audit_log p @ [\<lparr>log_timestamp = now clk, operation = op, actor = who, xr_ids = ids,
                     outcome = res\<rparr>]"
  by (simp add: pool_log_def)

subsection \<open>Validation\<close>

text \<open>
  An accepted \<open>validate\<close> in one equation: the mutated record and the new reputation,
  then the scoring, which either raises or gives the score that is stored and logged.
\<close>

lemma validate_unfold:
  assumes "dict_get (records p) i = Some xr" and "validator_id \<noteq> agent_id xr"
  shows "validate clk p i validator_id vt ev =
     (case compute_trust_score clk
             (case vt of
                CONFIRM \<Rightarrow> update_agent_reputation (trust_engine p) (agent_id xr) 0.05
              | DISPUTE \<Rightarrow> update_agent_reputation (trust_engine p) (agent_id xr) (- 0.05)
              | AMEND \<Rightarrow> trust_engine p)
             (xr\<lparr>validator_ids := validator_ids xr @ [validator_id],
                 validation_status :=
                   (case vt of
                      CONFIRM \<Rightarrow>
                        if validator_ids xr \<noteq> [] then VALIDATED else validation_status xr
                    | DISPUTE \<Rightarrow> DISPUTED
                    | AMEND \<Rightarrow> validation_status xr)\<rparr>)
             (dict_values (dict_set (records p) i
                (xr\<lparr>validator_ids := validator_ids xr @ [validator_id],
                    validation_status :=
                      (case vt of
                         CONFIRM \<Rightarrow>
                           if validator_ids xr \<noteq> [] then VALIDATED else validation_status xr
                       | DISPUTE \<Rightarrow> DISPUTED
                       | AMEND \<Rightarrow> validation_status xr)\<rparr>))) of
        Inl e \<Rightarrow>
          (Inl e,
           p\<lparr>records := dict_set (records p) i
                 (xr\<lparr>validator_ids := validator_ids xr @ [validator_id],
                     validation_status :=
                       (case vt of
                          CONFIRM \<Rightarrow>
                            if validator_ids xr \<noteq> [] then VALIDATED else validation_status xr
                        | DISPUTE \<Rightarrow> DISPUTED
                        | AMEND \<Rightarrow> validation_status xr)\<rparr>),
              trust_engine :=
                (case vt of
                   CONFIRM \<Rightarrow> update_agent_reputation (trust_engine p) (agent_id xr) 0.05
                 | DISPUTE \<Rightarrow> update_agent_reputation (trust_engine p) (agent_id xr) (- 0.05)
                 | AMEND \<Rightarrow> trust_engine p)\<rparr>)
      | Inr score \<Rightarrow>
          (Inr (ValidateAccepted i score
                  (ValidationStatus_value
                     (case vt of
                        CONFIRM \<Rightarrow>
                          if validator_ids xr \<noteq> [] then VALIDATED else validation_status xr
                      | DISPUTE \<Rightarrow> DISPUTED
                      | AMEND \<Rightarrow> validation_status xr))),
           pool_log clk
             (p\<lparr>records := dict_set (records p) i
                   (xr\<lparr>validator_ids := validator_ids xr @ [validator_id],
                       validation_status :=
                         (case vt of
                            CONFIRM \<Rightarrow>
                              if validator_ids xr \<noteq> [] then VALIDATED
                              else validation_status xr
                          | DISPUTE \<Rightarrow> DISPUTED
                          | AMEND \<Rightarrow> validation_status xr),
                       confidence_score := score\<rparr>),
                trust_engine :=
                  (case vt of
                     CONFIRM \<Rightarrow> update_agent_reputation (trust_engine p) (agent_id xr) 0.05
                   | DISPUTE \<Rightarrow>
                       update_agent_reputation (trust_engine p) (agent_id xr) (- 0.05)
                   | AMEND \<Rightarrow> trust_engine p)\<rparr>)
             ''validate'' validator_id [i]
             (ValidationType_value vt @ '': '' @ take 100 ev)))"
  using assms
  by (cases vt; cases "validator_ids xr")
     (simp_all add: validate_def Let_def dict_set_dict_set pool_log_def split: sum.splits)

text \<open>
  The two ways of a validate call that passes the two gates: the scoring raises, or it
  returns and the score is stored and the call logged. In both the stored record has the
  validator appended and the status moved as the branch of the validation type says.
\<close>

lemma validate_accepted_cases:
  assumes get: "dict_get (records p) i = Some xr" and other: "validator_id \<noteq> agent_id xr"
  obtains (raises) X T where
      "X = xr\<lparr>validator_ids := validator_ids xr @ [validator_id],
               validation_status :=
                 (case vt of
                     CONFIRM \<Rightarrow>
                       if validator_ids xr \<noteq> [] then VALIDATED else validation_status xr
                   | DISPUTE \<Rightarrow> DISPUTED
                   | AMEND \<Rightarrow> validation_status xr)\<rparr>"
      "T = (case vt of
              CONFIRM \<Rightarrow> update_agent_reputation (trust_engine p) (agent_id xr) 0.05
            | DISPUTE \<Rightarrow> update_agent_reputation (trust_engine p) (agent_id xr) (- 0.05)
            | AMEND \<Rightarrow> trust_engine p)"
      "compute_recency_factor clk (trust_engine p) (timestamp xr) = Inl OverflowError"
      "validate clk p i validator_id vt ev
         = (Inl OverflowError, p\<lparr>records := dict_set (records p) i X, trust_engine := T\<rparr>)"
    | (returns) X T c rc where
      "X = xr\<lparr>validator_ids := validator_ids xr @ [validator_id],
               validation_status :=
                 (case vt of
                     CONFIRM \<Rightarrow>
                       if validator_ids xr \<noteq> [] then VALIDATED else validation_status xr
                   | DISPUTE \<Rightarrow> DISPUTED
                   | AMEND \<Rightarrow> validation_status xr)\<rparr>"
      "T = (case vt of
              CONFIRM \<Rightarrow> update_agent_reputation (trust_engine p) (agent_id xr) 0.05
            | DISPUTE \<Rightarrow> update_agent_reputation (trust_engine p) (agent_id xr) (- 0.05)
            | AMEND \<Rightarrow> trust_engine p)"
      "compute_recency_factor clk (trust_engine p) (timestamp xr) = Inr rc"
      "0 \<le> c" "c \<le> 1"
      "validate clk p i validator_id vt ev
         = (Inr (ValidateAccepted i c (ValidationStatus_value (validation_status X))),
            pool_log clk
              (p\<lparr>records := dict_set (records p) i (X\<lparr>confidence_score := c\<rparr>),
                 trust_engine := T\<rparr>)
              ''validate'' validator_id [i] (ValidationType_value vt @ '': '' @ take 100 ev))"
proof -
  define X where "X = xr\<lparr>validator_ids := validator_ids xr @ [validator_id],
               validation_status :=
                 (case vt of
                     CONFIRM \<Rightarrow>
                       if validator_ids xr \<noteq> [] then VALIDATED else validation_status xr
                   | DISPUTE \<Rightarrow> DISPUTED
                   | AMEND \<Rightarrow> validation_status xr)\<rparr>"
  define T where "T = (case vt of
              CONFIRM \<Rightarrow> update_agent_reputation (trust_engine p) (agent_id xr) 0.05
            | DISPUTE \<Rightarrow> update_agent_reputation (trust_engine p) (agent_id xr) (- 0.05)
            | AMEND \<Rightarrow> trust_engine p)"
  have ts: "timestamp X = timestamp xr" by (simp add: X_def)
  have dr: "decay_rate T = decay_rate (trust_engine p)" by (cases vt) (simp_all add: T_def)
  have rec: "compute_recency_factor clk T (timestamp X)
      = compute_recency_factor clk (trust_engine p) (timestamp xr)"
    unfolding ts using dr by (rule compute_recency_factor_decay)
  note u = validate_unfold [OF get other, of clk vt ev, folded X_def T_def]
  show thesis
  proof (cases "compute_trust_score clk T X (dict_values (dict_set (records p) i X))")
    case (Inl e)
    from compute_trust_score_raises [OF Inl] rec
    have e: "e = OverflowError"
      and r: "compute_recency_factor clk (trust_engine p) (timestamp xr) = Inl OverflowError"
      by simp_all
    have "validate clk p i validator_id vt ev
         = (Inl OverflowError, p\<lparr>records := dict_set (records p) i X, trust_engine := T\<rparr>)"
      unfolding u Inl e by simp
    with X_def T_def r show thesis by (rule raises)
  next
    case (Inr c)
    from compute_trust_score_range [OF Inr] have c: "0 \<le> c" "c \<le> 1" by simp_all
    obtain rc where r: "compute_recency_factor clk (trust_engine p) (timestamp xr) = Inr rc"
      using Inr compute_trust_score_returns_iff [of clk T X] rec by metis
    have "validate clk p i validator_id vt ev
         = (Inr (ValidateAccepted i c (ValidationStatus_value (validation_status X))),
            pool_log clk
              (p\<lparr>records := dict_set (records p) i (X\<lparr>confidence_score := c\<rparr>),
                 trust_engine := T\<rparr>)
              ''validate'' validator_id [i] (ValidationType_value vt @ '': '' @ take 100 ev))"
      unfolding u Inr by (simp add: X_def)
    with X_def T_def r c show thesis by (rule returns)
  qed
qed

lemma validate_accepted_record:
  assumes "dict_get (records p) i = Some xr" and "validator_id \<noteq> agent_id xr"
  shows "\<exists>c. dict_get (records (snd (validate clk p i validator_id vt ev))) i =
           Some (xr\<lparr>validator_ids := validator_ids xr @ [validator_id],
                    validation_status :=
                      (case vt of
                         CONFIRM \<Rightarrow>
                           if validator_ids xr \<noteq> [] then VALIDATED else validation_status xr
                       | DISPUTE \<Rightarrow> DISPUTED
                       | AMEND \<Rightarrow> validation_status xr),
                    confidence_score := c\<rparr>)"
  using assms
proof (cases rule: validate_accepted_cases [where clk = clk and vt = vt and ev = ev])
  case (raises X T)
  have "dict_get (records (snd (validate clk p i validator_id vt ev))) i
      = Some (X\<lparr>confidence_score := confidence_score xr\<rparr>)"
    by (simp add: raises(4) dict_get_dict_set raises(1))
  then show ?thesis unfolding raises(1) by (rule exI)
next
  case (returns X T c rc)
  have "dict_get (records (snd (validate clk p i validator_id vt ev))) i
      = Some (X\<lparr>confidence_score := c\<rparr>)"
    by (simp add: returns(6) dict_get_dict_set)
  then show ?thesis unfolding returns(1) by (rule exI)
qed

lemma validate_accepted_status:
  assumes "dict_get (records p) i = Some xr" and "validator_id \<noteq> agent_id xr"
  shows "map_option validation_status
           (dict_get (records (snd (validate clk p i validator_id vt ev))) i) =
         Some (case vt of
                 CONFIRM \<Rightarrow> if validator_ids xr \<noteq> [] then VALIDATED else validation_status xr
               | DISPUTE \<Rightarrow> DISPUTED
               | AMEND \<Rightarrow> validation_status xr)"
  using validate_accepted_record [OF assms, of clk vt ev] by auto

lemma validate_accepted_validators:
  assumes "dict_get (records p) i = Some xr" and "validator_id \<noteq> agent_id xr"
  shows "map_option validator_ids
           (dict_get (records (snd (validate clk p i validator_id vt ev))) i) =
         Some (validator_ids xr @ [validator_id])"
  using validate_accepted_record [OF assms, of clk vt ev] by auto

lemma validate_accepted_agent:
  assumes "dict_get (records p) i = Some xr" and "validator_id \<noteq> agent_id xr"
  shows "map_option agent_id
           (dict_get (records (snd (validate clk p i validator_id vt ev))) i) =
         Some (agent_id xr)"
  using validate_accepted_record [OF assms, of clk vt ev] by auto

text \<open>
  C5. A validate call whose validator is the producing agent of the stored record returns
  the rejection, of status rejected, and changes nothing: the record under the id (its
  validator ids, validation status and confidence score), the reputation of the producing
  agent and the whole pool are as before.
\<close>

theorem self_validation_rejected:
  assumes "dict_get (records p) i = Some xr" and "validator_id = agent_id xr"
  shows "fst (validate clk p i validator_id vt ev)
           = Inr (ValidateRejected ''Self-validation not permitted'')
       \<and> validate_status (ValidateRejected ''Self-validation not permitted'') = ''rejected''
       \<and> dict_get (records (snd (validate clk p i validator_id vt ev))) i = Some xr
       \<and> get_agent_reputation (trust_engine (snd (validate clk p i validator_id vt ev)))
            (agent_id xr)
          = get_agent_reputation (trust_engine p) (agent_id xr)
       \<and> snd (validate clk p i validator_id vt ev) = p"
  using assms by (simp add: validate_def)

theorem self_validation_rejected_witness:
  "dict_get (records example_pool) ''xr-1'' = Some example_record
   \<and> ''alice'' = agent_id example_record
   \<and> fst (validate example_clock example_pool ''xr-1'' ''alice'' CONFIRM ''it worked'')
       = Inr (ValidateRejected ''Self-validation not permitted'')
   \<and> snd (validate example_clock example_pool ''xr-1'' ''alice'' CONFIRM ''it worked'')
       = example_pool"
proof -
  have get: "dict_get (records example_pool) ''xr-1'' = Some example_record"
    by (simp add: example_pool_def)
  have self: "''alice'' = agent_id example_record"
    by (simp add: example_record_def)
  from self_validation_rejected [OF get self, of example_clock CONFIRM "''it worked''"] get self
  show ?thesis by simp
qed

text \<open>
  C8. The threshold of a confirm counts every entry of the validator ids, whoever
  appended it: on a stored record that has at least one entry (from an amend, a dispute or
  a confirm), one confirm from a validator other than the producer appends the validator
  and leaves the record validated. The call reports that status whenever the scoring that
  follows returns, that is, whenever the recency of the record is computed; the status is
  written before the scoring, so the record is validated also when the scoring raises.
\<close>

theorem confirm_counts_every_entry:
  assumes "dict_get (records p) i = Some xr"
    and "validator_id \<noteq> agent_id xr"
    and "validator_ids xr \<noteq> []"
  shows "map_option validation_status
           (dict_get (records (snd (validate clk p i validator_id CONFIRM ev))) i)
         = Some VALIDATED
       \<and> map_option validator_ids
           (dict_get (records (snd (validate clk p i validator_id CONFIRM ev))) i)
         = Some (validator_ids xr @ [validator_id])
       \<and> (fst (validate clk p i validator_id CONFIRM ev) = Inl OverflowError
            \<or> (\<exists>c. fst (validate clk p i validator_id CONFIRM ev)
                     = Inr (ValidateAccepted i c ''validated'')))
       \<and> ((\<exists>rc. compute_recency_factor clk (trust_engine p) (timestamp xr) = Inr rc)
            \<longrightarrow> (\<exists>c. fst (validate clk p i validator_id CONFIRM ev)
                       = Inr (ValidateAccepted i c ''validated'')))"
proof -
  have res: "fst (validate clk p i validator_id CONFIRM ev) = Inl OverflowError
        \<and> compute_recency_factor clk (trust_engine p) (timestamp xr) = Inl OverflowError
      \<or> (\<exists>c. fst (validate clk p i validator_id CONFIRM ev)
                = Inr (ValidateAccepted i c ''validated''))"
    using assms(1,2)
  proof (cases rule: validate_accepted_cases [where clk = clk and vt = CONFIRM and ev = ev])
    case (raises X T)
    then show ?thesis by simp
  next
    case (returns X T c rc)
    have "validation_status X = VALIDATED" using assms(3) by (simp add: returns(1))
    then have "fst (validate clk p i validator_id CONFIRM ev)
        = Inr (ValidateAccepted i c ''validated'')"
      by (simp add: returns(6))
    then show ?thesis by blast
  qed
  have st: "map_option validation_status
           (dict_get (records (snd (validate clk p i validator_id CONFIRM ev))) i)
         = Some VALIDATED"
    using validate_accepted_status [OF assms(1,2), of clk CONFIRM ev] assms(3)
    by (simp del: map_option_eq_Some)
  have vs: "map_option validator_ids
           (dict_get (records (snd (validate clk p i validator_id CONFIRM ev))) i)
         = Some (validator_ids xr @ [validator_id])"
    by (rule validate_accepted_validators [OF assms(1,2)])
  have r1: "fst (validate clk p i validator_id CONFIRM ev) = Inl OverflowError
            \<or> (\<exists>c. fst (validate clk p i validator_id CONFIRM ev)
                     = Inr (ValidateAccepted i c ''validated''))"
    using res by blast
  have r2: "(\<exists>rc. compute_recency_factor clk (trust_engine p) (timestamp xr) = Inr rc)
            \<longrightarrow> (\<exists>c. fst (validate clk p i validator_id CONFIRM ev)
                       = Inr (ValidateAccepted i c ''validated''))"
    using res by auto
  from st vs r1 r2 show ?thesis by (intro conjI)
qed

text \<open>
  The witness: a pending record that carries the one entry an amend by bob appended; a
  confirm by carol validates it, and the call reports it.
\<close>

theorem confirm_counts_every_entry_witness:
  "dict_get (records (example_pool\<lparr>records :=
       [(''xr-1'', example_record\<lparr>validator_ids := [''bob'']\<rparr>)]\<rparr>)) ''xr-1''
     = Some (example_record\<lparr>validator_ids := [''bob'']\<rparr>)
   \<and> validation_status (example_record\<lparr>validator_ids := [''bob'']\<rparr>) = PENDING
   \<and> ''carol'' \<noteq> agent_id (example_record\<lparr>validator_ids := [''bob'']\<rparr>)
   \<and> validator_ids (example_record\<lparr>validator_ids := [''bob'']\<rparr>) \<noteq> []
   \<and> map_option validation_status
        (dict_get (records (snd (validate example_clock
           (example_pool\<lparr>records := [(''xr-1'', example_record\<lparr>validator_ids := [''bob'']\<rparr>)]\<rparr>)
           ''xr-1'' ''carol'' CONFIRM ''''))) ''xr-1'')
      = Some VALIDATED
   \<and> (\<exists>c. fst (validate example_clock
           (example_pool\<lparr>records := [(''xr-1'', example_record\<lparr>validator_ids := [''bob'']\<rparr>)]\<rparr>)
           ''xr-1'' ''carol'' CONFIRM '''')
         = Inr (ValidateAccepted ''xr-1'' c ''validated''))"
proof -
  let ?xr = "example_record\<lparr>validator_ids := [''bob'']\<rparr>"
  let ?p = "example_pool\<lparr>records := [(''xr-1'', ?xr)]\<rparr>"
  have get: "dict_get (records ?p) ''xr-1'' = Some ?xr" by simp
  have other: "''carol'' \<noteq> agent_id ?xr" by (simp add: example_record_def)
  have entries: "validator_ids ?xr \<noteq> []" by simp
  have pending: "validation_status ?xr = PENDING" by (simp add: example_record_def)
  have rec: "\<exists>rc. compute_recency_factor example_clock (trust_engine ?p) (timestamp ?xr) = Inr rc"
    using example_recency
    by (simp add: example_pool_def ExperiencePool_init_def example_record_def)
  from confirm_counts_every_entry [OF get other entries, of example_clock "''''"] rec
  have "map_option validation_status
        (dict_get (records (snd (validate example_clock ?p ''xr-1'' ''carol'' CONFIRM '''')))
           ''xr-1'')
      = Some VALIDATED
   \<and> (\<exists>c. fst (validate example_clock ?p ''xr-1'' ''carol'' CONFIRM '''')
         = Inr (ValidateAccepted ''xr-1'' c ''validated''))"
    by blast
  with get other entries pending show ?thesis by (simp del: map_option_eq_Some)
qed

text \<open>
  C1, as the code has it. For a stored record in the disputed state and a validator other
  than the producer: a dispute and an amend leave it disputed; a confirm leaves it
  disputed only when the record has no validator entry yet, and moves it to validated
  as soon as the record has at least one entry before the call.
\<close>

theorem disputed_record_transitions:
  assumes "dict_get (records p) i = Some xr"
    and "validation_status xr = DISPUTED"
    and "validator_id \<noteq> agent_id xr"
  shows "map_option validation_status
           (dict_get (records (snd (validate clk p i validator_id vt ev))) i)
         = Some (if vt = CONFIRM \<and> validator_ids xr \<noteq> [] then VALIDATED else DISPUTED)"
  using validate_accepted_status [OF assms(1,3), of clk vt ev] assms(2)
  by (cases vt) (simp_all del: map_option_eq_Some)

theorem disputed_record_transitions_witness:
  "dict_get (records (example_pool\<lparr>records :=
       [(''xr-1'', example_record\<lparr>validation_status := DISPUTED\<rparr>)]\<rparr>)) ''xr-1''
     = Some (example_record\<lparr>validation_status := DISPUTED\<rparr>)
   \<and> validation_status (example_record\<lparr>validation_status := DISPUTED\<rparr>) = DISPUTED
   \<and> ''bob'' \<noteq> agent_id (example_record\<lparr>validation_status := DISPUTED\<rparr>)
   \<and> map_option validation_status
        (dict_get (records (snd (validate example_clock
           (example_pool\<lparr>records :=
              [(''xr-1'', example_record\<lparr>validation_status := DISPUTED\<rparr>)]\<rparr>)
           ''xr-1'' ''bob'' CONFIRM ''''))) ''xr-1'')
      = Some DISPUTED"
proof -
  let ?xr = "example_record\<lparr>validation_status := DISPUTED\<rparr>"
  let ?p = "example_pool\<lparr>records := [(''xr-1'', ?xr)]\<rparr>"
  have get: "dict_get (records ?p) ''xr-1'' = Some ?xr" by simp
  have st: "validation_status ?xr = DISPUTED" by simp
  have other: "''bob'' \<noteq> agent_id ?xr" by (simp add: example_record_def)
  have none: "validator_ids ?xr = []" by (simp add: example_record_def)
  from disputed_record_transitions [OF get st other, of example_clock CONFIRM "''''"]
    get st other none
  show ?thesis by simp
qed

text \<open>
  The claim as stated fails: the example record, pending with no validator, is disputed by
  bob and then confirmed by carol; the dispute leaves it disputed with one entry, and the
  confirm moves it back to validated.
\<close>

theorem disputed_confirm_counterexample:
  "map_option validation_status
     (dict_get (records (snd (validate example_clock example_pool ''xr-1'' ''bob'' DISPUTE '''')))
        ''xr-1'')
   = Some DISPUTED
   \<and> map_option validation_status
       (dict_get (records (snd (validate example_clock
          (snd (validate example_clock example_pool ''xr-1'' ''bob'' DISPUTE ''''))
          ''xr-1'' ''carol'' CONFIRM ''''))) ''xr-1'')
     = Some VALIDATED"
proof -
  let ?p1 = "snd (validate example_clock example_pool ''xr-1'' ''bob'' DISPUTE '''')"
  have get: "dict_get (records example_pool) ''xr-1'' = Some example_record"
    by (simp add: example_pool_def)
  have bob: "''bob'' \<noteq> agent_id example_record" by (simp add: example_record_def)
  obtain c where get1: "dict_get (records ?p1) ''xr-1'' =
      Some (example_record\<lparr>validator_ids := validator_ids example_record @ [''bob''],
              validation_status := DISPUTED, confidence_score := c\<rparr>)"
    using validate_accepted_record [OF get bob, of example_clock DISPUTE "''''"] by auto
  have carol: "''carol'' \<noteq> agent_id (example_record\<lparr>validator_ids :=
      validator_ids example_record @ [''bob''], validation_status := DISPUTED,
      confidence_score := c\<rparr>)"
    by (simp add: example_record_def)
  show ?thesis
    using validate_accepted_status [OF get bob, of example_clock DISPUTE "''''"]
      validate_accepted_status [OF get1 carol, of example_clock CONFIRM "''''"]
    by simp
qed

subsection \<open>Admission\<close>

text \<open>
  C10. A deposit of a record whose agent id or task type is empty returns the status
  rejected and changes nothing: the pool (its records, so no eviction even at capacity,
  and its audit log) and the record passed in (so no score is written) are as before.
\<close>

theorem deposit_missing_fields_rejected:
  assumes "agent_id xr = [] \<or> task_type xr = []"
  shows "\<exists>reason. deposit clk p xr = Inr (DepositRejected reason, xr, p)
           \<and> deposit_status (DepositRejected reason) = ''rejected''"
  using assms by (auto simp add: deposit_def)

text \<open>The witness: a record without agent id, on the example pool, which is at capacity.\<close>

theorem deposit_missing_fields_rejected_witness:
  "(agent_id (example_record\<lparr>agent_id := []\<rparr>) = []
      \<or> task_type (example_record\<lparr>agent_id := []\<rparr>) = [])
   \<and> max_records example_pool \<le> int (length (records example_pool))
   \<and> (\<exists>reason. deposit example_clock example_pool (example_record\<lparr>agent_id := []\<rparr>)
        = Inr (DepositRejected reason, example_record\<lparr>agent_id := []\<rparr>, example_pool))"
proof -
  have empty: "agent_id (example_record\<lparr>agent_id := []\<rparr>) = []
      \<or> task_type (example_record\<lparr>agent_id := []\<rparr>) = []" by simp
  have full: "max_records example_pool \<le> int (length (records example_pool))"
    by (simp add: example_pool_def ExperiencePool_init_def)
  from deposit_missing_fields_rejected [OF empty, of example_clock example_pool] empty full
  show ?thesis by auto
qed

subsection \<open>Minimum and deletion\<close>

lemma py_min_mem: "py_min key b xs \<in> set (b # xs)"
  by (induction xs arbitrary: b) auto

lemma py_min_le_best: "key (py_min key b xs) \<le> key b"
proof (induction xs arbitrary: b)
  case Nil
  show ?case by simp
next
  case (Cons x xs)
  show ?case
  proof (cases "key x < key b")
    case True
    have "key (py_min key x xs) \<le> key x" by (rule Cons.IH)
    with True show ?thesis by simp
  next
    case False
    then show ?thesis using Cons.IH [of b] by simp
  qed
qed

lemma py_min_le: "y \<in> set xs \<Longrightarrow> key (py_min key b xs) \<le> key y"
proof (induction xs arbitrary: b)
  case Nil
  then show ?case by simp
next
  case (Cons x xs)
  let ?b = "if key x < key b then x else b"
  show ?case
  proof (cases "y = x")
    case True
    have "key (py_min key ?b xs) \<le> key ?b" by (rule py_min_le_best)
    also have "key ?b \<le> key x" by (simp add: not_less)
    finally show ?thesis using True by simp
  next
    case False
    with Cons.prems have "y \<in> set xs" by simp
    then have "key (py_min key ?b xs) \<le> key y" by (rule Cons.IH)
    then show ?thesis by simp
  qed
qed

lemma dict_del_present:
  "k \<in> fst ` set d \<Longrightarrow> \<exists>d'. dict_del d k = Some d' \<and> Suc (length d') = length d"
proof (induction d k rule: dict_del.induct)
  case (1 k)
  then show ?case by simp
next
  case (2 k' v' d k)
  show ?case
  proof (cases "k' = k")
    case True
    then show ?thesis by simp
  next
    case False
    with "2.prems" have "k \<in> fst ` set d" by auto
    from "2.IH" [OF False this] obtain d0 where "dict_del d k = Some d0" "Suc (length d0) = length d"
      by blast
    with False show ?thesis by simp
  qed
qed

lemma dict_del_filter:
  "dict_del d k = Some d' \<Longrightarrow> distinct (map fst d) \<Longrightarrow> d' = filter (\<lambda>e. fst e \<noteq> k) d"
proof (induction d k arbitrary: d' rule: dict_del.induct)
  case (1 k)
  then show ?case by simp
next
  case (2 k' v' d k)
  show ?case
  proof (cases "k' = k")
    case True
    with "2.prems" have "d' = d" and "k \<notin> fst ` set d" by simp_all
    then have "filter (\<lambda>e. fst e \<noteq> k) d = d" by (intro filter_True) force
    with True \<open>d' = d\<close> show ?thesis by simp
  next
    case False
    with "2.prems"(1) obtain d0 where d0: "dict_del d k = Some d0" "d' = (k', v') # d0"
      by (cases "dict_del d k") simp_all
    have "distinct (map fst d)" using "2.prems"(2) by simp
    with "2.IH" [OF False d0(1)] have "d0 = filter (\<lambda>e. fst e \<noteq> k) d" by simp
    with d0(2) False show ?thesis by simp
  qed
qed

lemma map_fst_dict_set:
  "map fst (dict_set d k v) = (if k \<in> fst ` set d then map fst d else map fst d @ [k])"
  by (induction d k v rule: dict_set.induct) (auto simp: image_iff)

lemma distinct_dict_set:
  "distinct (map fst d) \<Longrightarrow> distinct (map fst (dict_set d k v))"
  by (simp add: map_fst_dict_set)

lemma list_all_dict_set:
  "list_all P d \<Longrightarrow> P (k, v) \<Longrightarrow> list_all P (dict_set d k v)"
  by (induction d k v rule: dict_set.induct) auto

lemma length_dict_set_le: "length (dict_set d k v) \<le> Suc (length d)"
  by (simp add: length_dict_set)

subsection \<open>Well-formed pools\<close>

lemma pool_wf_key: "pool_wf p \<Longrightarrow> (k, x) \<in> set (records p) \<Longrightarrow> xr_id x = k"
  by (auto simp add: pool_wf_def list_all_iff)


subsection \<open>Eviction\<close>

text \<open>What an eviction does on a well-formed pool that is not empty.\<close>

lemma evict_oldest_nonempty:
  assumes wf: "pool_wf p" and ne: "records p \<noteq> []"
  obtains worst recs where
    "(xr_id worst, worst) \<in> set (records p)"
    "\<forall>e \<in> set (records p).
       (confidence_score worst, timestamp worst) \<le> (confidence_score (snd e), timestamp (snd e))"
    "dict_del (records p) (xr_id worst) = Some recs"
    "Suc (length recs) = length (records p)"
    "set recs = set (records p) - {(xr_id worst, worst)}"
    "distinct (map fst recs)"
    "evict_oldest clk p =
       Inr (pool_log clk (p\<lparr>records := recs\<rparr>) ''evict'' ''system'' [xr_id worst]
              ''capacity limit reached'')"
proof -
  obtain e0 es where recs_eq: "records p = e0 # es" using ne by (cases "records p") auto
  define x where "x = snd e0"
  define xs where "xs = map snd es"
  have vals: "dict_values (records p) = x # xs"
    by (simp add: dict_values_def recs_eq x_def xs_def)
  define worst where "worst = py_min (\<lambda>xr. (confidence_score xr, timestamp xr)) x xs"
  have "worst \<in> set (x # xs)" unfolding worst_def by (rule py_min_mem)
  then have "worst \<in> set (dict_values (records p))" using vals by simp
  then have "worst \<in> snd ` set (records p)" by (simp add: dict_values_def)
  then obtain k where kin: "(k, worst) \<in> set (records p)" by force
  then have k: "k = xr_id worst" using pool_wf_key [OF wf] by simp
  have mem: "(xr_id worst, worst) \<in> set (records p)" using kin k by simp
  have le: "\<forall>e \<in> set (records p).
       (confidence_score worst, timestamp worst) \<le> (confidence_score (snd e), timestamp (snd e))"
  proof
    fix e assume e: "e \<in> set (records p)"
    show "(confidence_score worst, timestamp worst) \<le> (confidence_score (snd e), timestamp (snd e))"
    proof (cases "snd e = x")
      case True
      have "(confidence_score worst, timestamp worst) \<le> (confidence_score x, timestamp x)"
        unfolding worst_def by (rule py_min_le_best)
      with True show ?thesis by simp
    next
      case False
      with e have "snd e \<in> set xs" using recs_eq by (auto simp add: x_def xs_def)
      then show ?thesis unfolding worst_def by (rule py_min_le)
    qed
  qed
  have "xr_id worst \<in> fst ` set (records p)" using mem by force
  then obtain recs where del: "dict_del (records p) (xr_id worst) = Some recs"
    and len: "Suc (length recs) = length (records p)"
    using dict_del_present [of "xr_id worst" "records p"] by auto
  have dist: "distinct (map fst (records p))" using wf by (simp add: pool_wf_def)
  have flt: "recs = filter (\<lambda>e. fst e \<noteq> xr_id worst) (records p)"
    using del dist by (rule dict_del_filter)
  have d': "distinct (map fst recs)" unfolding flt using dist by (rule distinct_map_filter)
  have uniq: "e = (xr_id worst, worst)"
    if ein: "e \<in> set (records p)" and fe: "fst e = xr_id worst" for e
  proof -
    have "(fst e, snd e) \<in> set (records p)" using ein by simp
    then have "(xr_id worst, snd e) \<in> set (records p)" using fe by simp
    with dist have "snd e = worst" using mem by (rule eq_key_imp_eq_value)
    then have "(fst e, snd e) = (xr_id worst, worst)" using fe by simp
    then show ?thesis by simp
  qed
  have s: "set recs = set (records p) - {(xr_id worst, worst)}"
  proof (rule set_eqI)
    fix e
    show "e \<in> set recs \<longleftrightarrow> e \<in> set (records p) - {(xr_id worst, worst)}"
      unfolding flt using uniq [of e] by auto
  qed
  have ev: "evict_oldest clk p =
      Inr (pool_log clk (p\<lparr>records := recs\<rparr>) ''evict'' ''system'' [xr_id worst]
             ''capacity limit reached'')"
    using del unfolding worst_def by (simp add: evict_oldest_def vals Let_def)
  show thesis using mem le del len s d' ev by (rule that)
qed

lemma evict_oldest_empty: "records p = [] \<Longrightarrow> evict_oldest clk p = Inr p"
  by (simp add: evict_oldest_def dict_values_def)

lemma dict_get_of_mem:
  "distinct (map fst d) \<Longrightarrow> (k, v) \<in> set d \<Longrightarrow> dict_get d k = Some v"
  by (induction d k rule: dict_get.induct) (auto simp: image_iff)

subsection \<open>Deposit\<close>

lemma deposit_pool_simps [simp]:
  "deposit_pool (Inl (e, p')) = p'"
  "deposit_pool (Inr (r, x, p')) = p'"
  by (simp_all add: deposit_pool_def)

text \<open>
  A deposit that passes the schema gate, from the pool that the capacity check leaves:
  the scoring raises, or it returns and the record is stored and the call logged.
\<close>

lemma deposit_accepted_from:
  assumes "agent_id xr \<noteq> []" and "task_type xr \<noteq> []"
    and "(if max_records p \<le> int (length (records p)) then evict_oldest clk p else Inr p) = Inr p1"
  obtains (raises)
      "compute_recency_factor clk (trust_engine p1) (timestamp xr) = Inl OverflowError"
      "deposit clk p xr = Inl (OverflowError, p1)"
    | (returns) c rc where
      "compute_recency_factor clk (trust_engine p1) (timestamp xr) = Inr rc"
      "0 \<le> c" "c \<le> 1"
      "deposit clk p xr =
         Inr (DepositAccepted (xr_id xr) (pool_id p1) c (now clk),
              xr\<lparr>confidence_score := c\<rparr>,
              pool_log clk (p1\<lparr>records := dict_set (records p1) (xr_id xr)
                                           (xr\<lparr>confidence_score := c\<rparr>)\<rparr>)
                ''deposit'' (agent_id xr) [xr_id xr] ''accepted'')"
proof (cases "compute_trust_score clk (trust_engine p1) xr (dict_values (records p1))")
  case (Inl e)
  from compute_trust_score_raises [OF Inl]
  have e: "e = OverflowError"
    and r: "compute_recency_factor clk (trust_engine p1) (timestamp xr) = Inl OverflowError"
    by simp_all
  have "deposit clk p xr = Inl (OverflowError, p1)"
    unfolding deposit_def assms(3) using assms(1,2) Inl e by simp
  with r show thesis by (rule raises)
next
  case (Inr c)
  from compute_trust_score_range [OF Inr] have c: "0 \<le> c" "c \<le> 1" by simp_all
  obtain rc where r: "compute_recency_factor clk (trust_engine p1) (timestamp xr) = Inr rc"
    using Inr compute_trust_score_returns_iff [of clk "trust_engine p1" xr] by metis
  have "deposit clk p xr =
         Inr (DepositAccepted (xr_id xr) (pool_id p1) c (now clk),
              xr\<lparr>confidence_score := c\<rparr>,
              pool_log clk (p1\<lparr>records := dict_set (records p1) (xr_id xr)
                                           (xr\<lparr>confidence_score := c\<rparr>)\<rparr>)
                ''deposit'' (agent_id xr) [xr_id xr] ''accepted'')"
    unfolding deposit_def assms(3) using assms(1,2) Inr by (simp add: Let_def)
  with r c show thesis by (rule returns)
qed

text \<open>
  Every way of a deposit on a well-formed pool: rejected at the schema gate; with an
  eviction (the pool is at capacity and holds a record) or without; and then the scoring
  raises or returns.
\<close>

lemma deposit_cases:
  assumes wf: "pool_wf p"
  obtains (rejected)
      "agent_id xr = [] \<or> task_type xr = []"
      "deposit clk p xr =
         Inr (DepositRejected ''Missing required fields (agent_id, task_type)'', xr, p)"
    | (evict_raise) worst recs p' e1 where
      "agent_id xr \<noteq> []" "task_type xr \<noteq> []"
      "max_records p \<le> int (length (records p))" "records p \<noteq> []"
      "(xr_id worst, worst) \<in> set (records p)"
      "\<forall>e \<in> set (records p).
         (confidence_score worst, timestamp worst)
           \<le> (confidence_score (snd e), timestamp (snd e))"
      "dict_del (records p) (xr_id worst) = Some recs"
      "Suc (length recs) = length (records p)"
      "set recs = set (records p) - {(xr_id worst, worst)}"
      "distinct (map fst recs)"
      "compute_recency_factor clk (trust_engine p) (timestamp xr) = Inl OverflowError"
      "deposit clk p xr = Inl (OverflowError, p')"
      "records p' = recs"
      "audit_log p' = audit_log p @ [e1]"
      "operation e1 = ''evict''"
      "max_records p' = max_records p" "trust_engine p' = trust_engine p"
    | (evict_return) worst recs c rc p' e1 e2 where
      "agent_id xr \<noteq> []" "task_type xr \<noteq> []"
      "max_records p \<le> int (length (records p))" "records p \<noteq> []"
      "(xr_id worst, worst) \<in> set (records p)"
      "\<forall>e \<in> set (records p).
         (confidence_score worst, timestamp worst)
           \<le> (confidence_score (snd e), timestamp (snd e))"
      "dict_del (records p) (xr_id worst) = Some recs"
      "Suc (length recs) = length (records p)"
      "set recs = set (records p) - {(xr_id worst, worst)}"
      "distinct (map fst recs)"
      "compute_recency_factor clk (trust_engine p) (timestamp xr) = Inr rc"
      "0 \<le> c" "c \<le> 1"
      "deposit clk p xr =
         Inr (DepositAccepted (xr_id xr) (pool_id p) c (now clk), xr\<lparr>confidence_score := c\<rparr>, p')"
      "records p' = dict_set recs (xr_id xr) (xr\<lparr>confidence_score := c\<rparr>)"
      "audit_log p' = audit_log p @ [e1, e2]"
      "operation e1 = ''evict''" "operation e2 = ''deposit''"
      "max_records p' = max_records p" "trust_engine p' = trust_engine p"
    | (plain_raise)
      "agent_id xr \<noteq> []" "task_type xr \<noteq> []"
      "\<not> (max_records p \<le> int (length (records p)) \<and> records p \<noteq> [])"
      "compute_recency_factor clk (trust_engine p) (timestamp xr) = Inl OverflowError"
      "deposit clk p xr = Inl (OverflowError, p)"
    | (plain_return) c rc p' e1 where
      "agent_id xr \<noteq> []" "task_type xr \<noteq> []"
      "\<not> (max_records p \<le> int (length (records p)) \<and> records p \<noteq> [])"
      "compute_recency_factor clk (trust_engine p) (timestamp xr) = Inr rc"
      "0 \<le> c" "c \<le> 1"
      "deposit clk p xr =
         Inr (DepositAccepted (xr_id xr) (pool_id p) c (now clk), xr\<lparr>confidence_score := c\<rparr>, p')"
      "records p' = dict_set (records p) (xr_id xr) (xr\<lparr>confidence_score := c\<rparr>)"
      "audit_log p' = audit_log p @ [e1]"
      "operation e1 = ''deposit''"
      "max_records p' = max_records p" "trust_engine p' = trust_engine p"
proof (cases "agent_id xr = [] \<or> task_type xr = []")
  case True
  then have "deposit clk p xr =
      Inr (DepositRejected ''Missing required fields (agent_id, task_type)'', xr, p)"
    by (auto simp add: deposit_def)
  with True show thesis by (rule rejected)
next
  case False
  then have a: "agent_id xr \<noteq> []" and t: "task_type xr \<noteq> []" by simp_all
  show thesis
  proof (cases "max_records p \<le> int (length (records p)) \<and> records p \<noteq> []")
    case True
    then have full: "max_records p \<le> int (length (records p))" and ne: "records p \<noteq> []"
      by simp_all
    from wf ne obtain worst recs where ev:
      "(xr_id worst, worst) \<in> set (records p)"
      "\<forall>e \<in> set (records p).
         (confidence_score worst, timestamp worst)
           \<le> (confidence_score (snd e), timestamp (snd e))"
      "dict_del (records p) (xr_id worst) = Some recs"
      "Suc (length recs) = length (records p)"
      "set recs = set (records p) - {(xr_id worst, worst)}"
      "distinct (map fst recs)"
      "evict_oldest clk p =
         Inr (pool_log clk (p\<lparr>records := recs\<rparr>) ''evict'' ''system'' [xr_id worst]
                ''capacity limit reached'')"
      by (rule evict_oldest_nonempty [where clk = clk])
    define p1 where "p1 = pool_log clk (p\<lparr>records := recs\<rparr>) ''evict'' ''system''
        [xr_id worst] ''capacity limit reached''"
    define e1 where "e1 = \<lparr>log_timestamp = now clk, operation = ''evict'', actor = ''system'',
        xr_ids = [xr_id worst], outcome = ''capacity limit reached''\<rparr>"
    have chk: "(if max_records p \<le> int (length (records p)) then evict_oldest clk p else Inr p)
        = Inr p1"
      using full ev(7) by (simp add: p1_def)
    have r1: "records p1 = recs" by (simp add: p1_def)
    have l1: "audit_log p1 = audit_log p @ [e1]"
      by (simp add: p1_def audit_log_pool_log e1_def)
    have o1: "operation e1 = ''evict''" by (simp add: e1_def)
    have m1: "max_records p1 = max_records p" "trust_engine p1 = trust_engine p"
      "pool_id p1 = pool_id p"
      by (simp_all add: p1_def)
    from a t chk show thesis
    proof (cases rule: deposit_accepted_from)
      case raises
      from raises(1) have r: "compute_recency_factor clk (trust_engine p) (timestamp xr)
          = Inl OverflowError"
        by (simp add: m1)
      show thesis
        using a t full ne ev(1-6) r raises(2) r1 l1 o1 m1(1,2) by (rule evict_raise)
    next
      case (returns c rc)
      define p' where "p' = pool_log clk (p1\<lparr>records := dict_set (records p1) (xr_id xr)
          (xr\<lparr>confidence_score := c\<rparr>)\<rparr>) ''deposit'' (agent_id xr) [xr_id xr] ''accepted''"
      define e2 where "e2 = \<lparr>log_timestamp = now clk, operation = ''deposit'',
          actor = agent_id xr, xr_ids = [xr_id xr], outcome = ''accepted''\<rparr>"
      from returns(1) have r: "compute_recency_factor clk (trust_engine p) (timestamp xr)
          = Inr rc"
        by (simp add: m1)
      have d: "deposit clk p xr =
          Inr (DepositAccepted (xr_id xr) (pool_id p) c (now clk), xr\<lparr>confidence_score := c\<rparr>, p')"
        using returns(4) by (simp add: p'_def m1)
      have rr: "records p' = dict_set recs (xr_id xr) (xr\<lparr>confidence_score := c\<rparr>)"
        by (simp add: p'_def r1)
      have l: "audit_log p' = audit_log p @ [e1, e2]"
        by (simp add: p'_def audit_log_pool_log e2_def l1)
      have o2: "operation e2 = ''deposit''" by (simp add: e2_def)
      have m: "max_records p' = max_records p" "trust_engine p' = trust_engine p"
        by (simp_all add: p'_def m1)
      show thesis
        using a t full ne ev(1-6) r returns(2,3) d rr l o1 o2 m by (rule evict_return)
    qed
  next
    case False
    have chk: "(if max_records p \<le> int (length (records p)) then evict_oldest clk p else Inr p)
        = Inr p"
      using False by (auto simp add: evict_oldest_empty)
    from a t chk show thesis
    proof (cases rule: deposit_accepted_from)
      case raises
      with a t False show thesis by (rule plain_raise)
    next
      case (returns c rc)
      define p' where "p' = pool_log clk (p\<lparr>records := dict_set (records p) (xr_id xr)
          (xr\<lparr>confidence_score := c\<rparr>)\<rparr>) ''deposit'' (agent_id xr) [xr_id xr] ''accepted''"
      define e1 where "e1 = \<lparr>log_timestamp = now clk, operation = ''deposit'',
          actor = agent_id xr, xr_ids = [xr_id xr], outcome = ''accepted''\<rparr>"
      have d: "deposit clk p xr =
          Inr (DepositAccepted (xr_id xr) (pool_id p) c (now clk), xr\<lparr>confidence_score := c\<rparr>, p')"
        using returns(4) by (simp add: p'_def)
      have rr: "records p' = dict_set (records p) (xr_id xr) (xr\<lparr>confidence_score := c\<rparr>)"
        by (simp add: p'_def)
      have l: "audit_log p' = audit_log p @ [e1]"
        by (simp add: p'_def audit_log_pool_log e1_def)
      have o: "operation e1 = ''deposit''" by (simp add: e1_def)
      have m: "max_records p' = max_records p" "trust_engine p' = trust_engine p"
        by (simp_all add: p'_def)
      show thesis
        using a t False returns(1-3) d rr l o m by (rule plain_return)
    qed
  qed
qed

text \<open>
  The empty pool is well-formed and a deposit keeps a pool well-formed, whether it returns
  or raises (the other two operations do so as well, see the end of the theory): the
  hypothesis \<open>pool_wf\<close> of the theorems on deposits holds in every state that the three
  operations reach from the empty pool.
\<close>

lemma deposit_wf:
  assumes wf: "pool_wf p"
  shows "pool_wf (deposit_pool (deposit clk p xr))"
proof -
  have keys: "list_all (\<lambda>(k, x). xr_id x = k) (records p)"
    and dist: "distinct (map fst (records p))"
    using wf by (simp_all add: pool_wf_def)
  from wf show ?thesis
  proof (cases rule: deposit_cases [where clk = clk and xr = xr])
    case rejected
    then show ?thesis using wf by simp
  next
    case (evict_raise worst recs p' e1)
    have "list_all (\<lambda>(k, x). xr_id x = k) recs"
      using keys evict_raise(9) by (auto simp add: list_all_iff)
    with evict_raise(10) show ?thesis
      by (simp add: evict_raise(12) pool_wf_def evict_raise(13))
  next
    case (evict_return worst recs c rc p' e1 e2)
    have "list_all (\<lambda>(k, x). xr_id x = k) recs"
      using keys evict_return(9) by (auto simp add: list_all_iff)
    then have "list_all (\<lambda>(k, x). xr_id x = k) (records p')"
      unfolding evict_return(15) by (rule list_all_dict_set) simp
    moreover have "distinct (map fst (records p'))"
      unfolding evict_return(15) using evict_return(10) by (rule distinct_dict_set)
    ultimately show ?thesis by (simp add: evict_return(14) pool_wf_def)
  next
    case plain_raise
    then show ?thesis using wf by simp
  next
    case (plain_return c rc p' e1)
    have "list_all (\<lambda>(k, x). xr_id x = k) (records p')"
      unfolding plain_return(8) using keys by (rule list_all_dict_set) simp
    moreover have "distinct (map fst (records p'))"
      unfolding plain_return(8) using dist by (rule distinct_dict_set)
    ultimately show ?thesis by (simp add: plain_return(7) pool_wf_def)
  qed
qed

text \<open>A deposit returns exactly when it is rejected or the recency of its record is computed.\<close>

lemma deposit_returns_iff:
  assumes wf: "pool_wf p"
  shows "(\<exists>r xr' p'. deposit clk p xr = Inr (r, xr', p'))
           \<longleftrightarrow> (agent_id xr = [] \<or> task_type xr = []
                 \<or> (\<exists>rc. compute_recency_factor clk (trust_engine p) (timestamp xr) = Inr rc))"
  using wf by (cases rule: deposit_cases [where clk = clk and xr = xr]) auto




text \<open>
  C9. The deposit does not look for the id among the stored ids: on a well-formed pool
  that already holds a record under the id of the deposited record, an accepted deposit
  (one that passes the schema gate and whose scoring returns, that is, the recency of the
  record is computed) returns the status accepted, leaves the deposited record (with its
  fresh score) as the only record under that id, so the old one is lost, and does not
  raise the record count; below capacity the count is unchanged.
\<close>

theorem deposit_duplicate_id_overwrites:
  assumes wf: "pool_wf p"
    and stored: "dict_get (records p) (xr_id xr) = Some old"
    and a: "agent_id xr \<noteq> []" and t: "task_type xr \<noteq> []"
    and rec: "compute_recency_factor clk (trust_engine p) (timestamp xr) = Inr rc"
  shows "\<exists>c p'.
           deposit clk p xr =
             Inr (DepositAccepted (xr_id xr) (pool_id p) c (now clk),
                  xr\<lparr>confidence_score := c\<rparr>, p')
         \<and> deposit_status (DepositAccepted (xr_id xr) (pool_id p) c (now clk)) = ''accepted''
         \<and> dict_get (records p') (xr_id xr) = Some (xr\<lparr>confidence_score := c\<rparr>)
         \<and> (\<forall>x. (xr_id xr, x) \<in> set (records p') \<longrightarrow> x = xr\<lparr>confidence_score := c\<rparr>)
         \<and> length (records p') \<le> length (records p)
         \<and> (int (length (records p)) < max_records p
              \<longrightarrow> length (records p') = length (records p))"
proof -
  have dist: "distinct (map fst (records p))" using wf by (simp add: pool_wf_def)
  have only: "\<forall>x. (xr_id xr, x) \<in> set (dict_set d (xr_id xr) v) \<longrightarrow> x = v"
    if "distinct (map fst d)" for d and v :: ExperienceRecord
  proof (intro allI impI)
    fix x assume "(xr_id xr, x) \<in> set (dict_set d (xr_id xr) v)"
    with distinct_dict_set [OF that] have "dict_get (dict_set d (xr_id xr) v) (xr_id xr) = Some x"
      by (rule dict_get_of_mem)
    then show "x = v" by (simp add: dict_get_dict_set)
  qed
  from wf show ?thesis
  proof (cases rule: deposit_cases [where clk = clk and xr = xr])
    case rejected
    with a t show ?thesis by simp
  next
    case (evict_raise worst recs p' e1)
    with rec show ?thesis by simp
  next
    case (evict_return worst recs c rc' p' e1 e2)
    have "length (records p') \<le> Suc (length recs)"
      unfolding evict_return(15) by (rule length_dict_set_le)
    then have len: "length (records p') \<le> length (records p)" using evict_return(8) by simp
    have get: "dict_get (records p') (xr_id xr) = Some (xr\<lparr>confidence_score := c\<rparr>)"
      unfolding evict_return(15) by (simp add: dict_get_dict_set)
    have one: "\<forall>x. (xr_id xr, x) \<in> set (records p') \<longrightarrow> x = xr\<lparr>confidence_score := c\<rparr>"
      unfolding evict_return(15) using evict_return(10) by (rule only)
    have "\<not> int (length (records p)) < max_records p" using evict_return(3) by simp
    with evict_return(14) get one len show ?thesis
      by (intro exI [of _ c] exI [of _ p']) simp
  next
    case plain_raise
    with rec show ?thesis by simp
  next
    case (plain_return c rc' p' e1)
    have len: "length (records p') = length (records p)"
      unfolding plain_return(8) using stored by (simp add: length_dict_set)
    have get: "dict_get (records p') (xr_id xr) = Some (xr\<lparr>confidence_score := c\<rparr>)"
      unfolding plain_return(8) by (simp add: dict_get_dict_set)
    have one: "\<forall>x. (xr_id xr, x) \<in> set (records p') \<longrightarrow> x = xr\<lparr>confidence_score := c\<rparr>"
      unfolding plain_return(8) using dist by (rule only)
    from plain_return(7) get one len show ?thesis
      by (intro exI [of _ c] exI [of _ p']) simp
  qed
qed

text \<open>
  The witness: a record with the id of the stored example record and another task type,
  deposited into the example pool with room for ten records.
\<close>

theorem deposit_duplicate_id_overwrites_witness:
  "pool_wf (example_pool\<lparr>max_records := 10\<rparr>)
   \<and> dict_get (records (example_pool\<lparr>max_records := 10\<rparr>))
        (xr_id (example_record\<lparr>task_type := ''x.z''\<rparr>)) = Some example_record
   \<and> agent_id (example_record\<lparr>task_type := ''x.z''\<rparr>) \<noteq> []
   \<and> task_type (example_record\<lparr>task_type := ''x.z''\<rparr>) \<noteq> []
   \<and> compute_recency_factor example_clock (trust_engine (example_pool\<lparr>max_records := 10\<rparr>))
        (timestamp (example_record\<lparr>task_type := ''x.z''\<rparr>)) = Inr (exp (- (1 / 10)))
   \<and> (\<exists>c p'.
         deposit example_clock (example_pool\<lparr>max_records := 10\<rparr>)
           (example_record\<lparr>task_type := ''x.z''\<rparr>)
         = Inr (DepositAccepted ''xr-1'' ''pool-1'' c (now example_clock),
                example_record\<lparr>task_type := ''x.z'', confidence_score := c\<rparr>, p')
       \<and> dict_get (records p') ''xr-1''
           = Some (example_record\<lparr>task_type := ''x.z'', confidence_score := c\<rparr>)
       \<and> length (records p') = 1)"
proof -
  let ?p = "example_pool\<lparr>max_records := 10\<rparr>"
  let ?xr = "example_record\<lparr>task_type := ''x.z''\<rparr>"
  have wf: "pool_wf ?p" by (simp add: pool_wf_def example_pool_def example_record_def)
  have stored: "dict_get (records ?p) (xr_id ?xr) = Some example_record"
    by (simp add: example_pool_def example_record_def)
  have a: "agent_id ?xr \<noteq> []" by (simp add: example_record_def)
  have t: "task_type ?xr \<noteq> []" by simp
  have rec: "compute_recency_factor example_clock (trust_engine ?p) (timestamp ?xr)
      = Inr (exp (- (1 / 10)))"
    using example_recency
    by (simp add: example_pool_def ExperiencePool_init_def example_record_def)
  have id: "xr_id ?xr = ''xr-1''" by (simp add: example_record_def)
  have pid: "pool_id ?p = ''pool-1''" by (simp add: example_pool_def ExperiencePool_init_def)
  have room: "int (length (records ?p)) < max_records ?p" "length (records ?p) = 1"
    by (simp_all add: example_pool_def)
  from deposit_duplicate_id_overwrites [OF wf stored a t rec]
  obtain c p' where
    "deposit example_clock ?p ?xr =
       Inr (DepositAccepted (xr_id ?xr) (pool_id ?p) c (now example_clock),
            ?xr\<lparr>confidence_score := c\<rparr>, p')"
    "dict_get (records p') (xr_id ?xr) = Some (?xr\<lparr>confidence_score := c\<rparr>)"
    "int (length (records ?p)) < max_records ?p
       \<longrightarrow> length (records p') = length (records ?p)"
    by blast
  with id pid room have "\<exists>c p'.
         deposit example_clock ?p ?xr
         = Inr (DepositAccepted ''xr-1'' ''pool-1'' c (now example_clock),
                example_record\<lparr>task_type := ''x.z'', confidence_score := c\<rparr>, p')
       \<and> dict_get (records p') ''xr-1''
           = Some (example_record\<lparr>task_type := ''x.z'', confidence_score := c\<rparr>)
       \<and> length (records p') = 1"
    by (intro exI [of _ c] exI [of _ p']) simp
  with wf stored a t rec show ?thesis by (intro conjI)
qed

subsection \<open>Retrieval\<close>






text \<open>One round of the loop over the candidates.\<close>

lemma recompute_scores_Cons_Inl:
  assumes "compute_trust_score clk te xr (dict_values recs) = Inl e"
  shows "recompute_scores clk te ((k, xr) # cs) recs = (Inl e, recs)"
  by (simp add: assms)

lemma recompute_scores_Cons_Inr:
  assumes "compute_trust_score clk te xr (dict_values recs) = Inr c"
  shows "recompute_scores clk te ((k, xr) # cs) recs =
           (case fst (recompute_scores clk te cs (dict_set recs k (xr\<lparr>confidence_score := c\<rparr>))) of
              Inl e \<Rightarrow> Inl e
            | Inr cs' \<Rightarrow> Inr (xr\<lparr>confidence_score := c\<rparr> # cs'),
            snd (recompute_scores clk te cs (dict_set recs k (xr\<lparr>confidence_score := c\<rparr>))))"
  by (simp add: assms Let_def split_beta)

text \<open>
  When the loop over the candidates ends, it has changed nothing of a candidate but its
  score.
\<close>

lemma recompute_scores_candidates:
  assumes "fst (recompute_scores clk te cs recs) = Inr cs'"
  shows "length cs' = length cs
       \<and> (\<forall>x' \<in> set cs'. \<exists>k xr c. (k, xr) \<in> set cs \<and> x' = xr\<lparr>confidence_score := c\<rparr>)"
  using assms
proof (induction cs arbitrary: recs cs')
  case Nil
  then show ?case by simp
next
  case (Cons e cs)
  obtain k xr where e: "e = (k, xr)" by (cases e)
  show ?case
  proof (cases "compute_trust_score clk te xr (dict_values recs)")
    case (Inl err)
    with Cons.prems show ?thesis by (simp add: e)
  next
    case (Inr c)
    define xr1 where "xr1 = xr\<lparr>confidence_score := c\<rparr>"
    note unfold = recompute_scores_Cons_Inr [OF Inr, of k cs, folded xr1_def]
    show ?thesis
    proof (cases "fst (recompute_scores clk te cs (dict_set recs k xr1))")
      case (Inl err)
      with Cons.prems show ?thesis by (simp add: e unfold del: recompute_scores.simps)
    next
      case rest: (Inr cs'')
      from Cons.prems have cs': "cs' = xr1 # cs''" by (simp add: e unfold rest del: recompute_scores.simps)
      from Cons.IH [OF rest] have len: "length cs'' = length cs"
        and mem: "\<forall>x' \<in> set cs''. \<exists>k xr c. (k, xr) \<in> set cs \<and> x' = xr\<lparr>confidence_score := c\<rparr>"
        by simp_all
      have "\<exists>k xr c. (k, xr) \<in> set (e # cs) \<and> x' = xr\<lparr>confidence_score := c\<rparr>"
        if "x' \<in> set cs'" for x'
      proof (cases "x' = xr1")
        case True
        then have "(k, xr) \<in> set (e # cs) \<and> x' = xr\<lparr>confidence_score := c\<rparr>"
          by (simp add: e xr1_def)
        then show ?thesis by blast
      next
        case False
        with that have "x' \<in> set cs''" by (simp add: cs')
        with mem obtain k' xr' c' where "(k', xr') \<in> set cs" "x' = xr'\<lparr>confidence_score := c'\<rparr>"
          by blast
        then have "(k', xr') \<in> set (e # cs) \<and> x' = xr'\<lparr>confidence_score := c'\<rparr>" by simp
        then show ?thesis by blast
      qed
      with len show ?thesis by (simp add: cs')
    qed
  qed
qed

text \<open>The loop over the candidates ends when the recency of every candidate is computed.\<close>

lemma recompute_scores_returns:
  assumes "\<forall>e \<in> set cs. \<exists>rc. compute_recency_factor clk te (timestamp (snd e)) = Inr rc"
  shows "\<exists>cs'. fst (recompute_scores clk te cs recs) = Inr cs'"
  using assms
proof (induction cs arbitrary: recs)
  case Nil
  then show ?case by simp
next
  case (Cons e cs)
  obtain k xr where e: "e = (k, xr)" by (cases e)
  from Cons.prems obtain rc where "compute_recency_factor clk te (timestamp xr) = Inr rc"
    by (auto simp add: e)
  then obtain c where c: "compute_trust_score clk te xr (dict_values recs) = Inr c"
    using compute_trust_score_returns_iff [of clk te xr "dict_values recs"] by blast
  from Cons.prems have "\<forall>e \<in> set cs. \<exists>rc. compute_recency_factor clk te (timestamp (snd e)) = Inr rc"
    by simp
  from Cons.IH [OF this, of "dict_set recs k (xr\<lparr>confidence_score := c\<rparr>)"]
  obtain cs' where "fst (recompute_scores clk te cs (dict_set recs k (xr\<lparr>confidence_score := c\<rparr>)))
      = Inr cs'" by blast
  then show ?case by (simp add: e recompute_scores_Cons_Inr [OF c] del: recompute_scores.simps)
qed

text \<open>The loop stops on nothing but the OverflowError of a recency.\<close>

lemma recompute_scores_raises:
  assumes "fst (recompute_scores clk te cs recs) = Inl err"
  shows "err = OverflowError"
  using assms
proof (induction cs arbitrary: recs)
  case Nil
  then show ?case by simp
next
  case (Cons e cs)
  obtain k xr where e: "e = (k, xr)" by (cases e)
  show ?case
  proof (cases "compute_trust_score clk te xr (dict_values recs)")
    case (Inl err')
    with Cons.prems have "err' = err" by (simp add: e)
    with Inl compute_trust_score_raises show ?thesis by blast
  next
    case (Inr c)
    note unfold = recompute_scores_Cons_Inr [OF Inr, of k cs]
    show ?thesis
    proof (cases "fst (recompute_scores clk te cs (dict_set recs k (xr\<lparr>confidence_score := c\<rparr>)))")
      case (Inl err')
      with Cons.prems have "err' = err" by (simp add: e unfold del: recompute_scores.simps)
      with Inl Cons.IH show ?thesis by blast
    next
      case rest: (Inr cs'')
      with Cons.prems show ?thesis by (simp add: e unfold del: recompute_scores.simps)
    qed
  qed
qed


lemma score_candidates_returns:
  assumes "\<forall>x \<in> set xs. \<exists>rc. compute_recency_factor clk te (timestamp x) = Inr rc"
  shows "\<exists>scored. score_candidates clk te w xs = Inr scored"
  using assms
proof (induction xs)
  case Nil
  then show ?case by simp
next
  case (Cons x xs)
  from Cons.prems obtain rc where rc: "compute_recency_factor clk te (timestamp x) = Inr rc"
    by auto
  from Cons obtain scored where "score_candidates clk te w xs = Inr scored" by auto
  with rc show ?case by simp
qed

lemma score_candidates_raises:
  assumes "score_candidates clk te w xs = Inl err"
  shows "err = OverflowError"
  using assms
proof (induction xs)
  case Nil
  then show ?case by simp
next
  case (Cons x xs)
  show ?case
  proof (cases "compute_recency_factor clk te (timestamp x)")
    case (Inl err')
    with Cons.prems have "err' = err" by simp
    with Inl compute_recency_factor_cases [of clk te "timestamp x"] show ?thesis by simp
  next
    case (Inr rc)
    with Cons show ?thesis by (cases "score_candidates clk te w xs") simp_all
  qed
qed

text \<open>
  The body of \<open>retrieve\<close> without the local names: \<open>cands\<close> are the candidates that the
  first loop visits and \<open>minc\<close> is the effective minimum.
\<close>

lemma retrieve_unfold:
  assumes "c1 =
    (case tt of
       None \<Rightarrow> records p
     | Some t \<Rightarrow>
         if t = [] then records p
         else filter (\<lambda>(k, xr). task_type xr = t \<or> startswith (task_type xr) (t @ ''.''))
                (records p))"
    and "cands =
    (case ofl of None \<Rightarrow> c1 | Some st \<Rightarrow> filter (\<lambda>(k, xr). outcome_status xr = st) c1)"
    and "minc = (case mc of None \<Rightarrow> min_confidence_threshold p | Some m \<Rightarrow> m)"
  shows "retrieve clk p tt mc mr rw ofl who =
     (case fst (recompute_scores clk (trust_engine p) cands (records p)) of
        Inl e \<Rightarrow>
          (Inl e, p\<lparr>records := snd (recompute_scores clk (trust_engine p) cands (records p))\<rparr>)
      | Inr cs' \<Rightarrow>
          (case score_candidates clk (trust_engine p) rw
                  (filter (\<lambda>xr. minc \<le> confidence_score xr) cs') of
             Inl e \<Rightarrow>
               (Inl e, p\<lparr>records := snd (recompute_scores clk (trust_engine p) cands (records p))\<rparr>)
           | Inr scored \<Rightarrow>
               (Inr (map (\<lambda>(rel, xr).
                            \<lparr>item_xr_id = xr_id xr, relevance_score = py_round rel 4,
                             item_confidence_score = confidence_score xr,
                             item_task_type = task_type xr,
                             item_outcome_status = outcome_status xr,
                             item_result_summary = result_summary xr\<rparr>)
                       (py_slice_to (py_sort_reverse fst scored) mr)),
                pool_log clk
                  (p\<lparr>records := snd (recompute_scores clk (trust_engine p) cands (records p))\<rparr>)
                  ''retrieve'' who
                  (map item_xr_id
                     (map (\<lambda>(rel, xr).
                            \<lparr>item_xr_id = xr_id xr, relevance_score = py_round rel 4,
                             item_confidence_score = confidence_score xr,
                             item_task_type = task_type xr,
                             item_outcome_status = outcome_status xr,
                             item_result_summary = result_summary xr\<rparr>)
                       (py_slice_to (py_sort_reverse fst scored) mr)))
                  (''returned '' @ py_str_nat (length
                     (map (\<lambda>(rel, xr).
                            \<lparr>item_xr_id = xr_id xr, relevance_score = py_round rel 4,
                             item_confidence_score = confidence_score xr,
                             item_task_type = task_type xr,
                             item_outcome_status = outcome_status xr,
                             item_result_summary = result_summary xr\<rparr>)
                       (py_slice_to (py_sort_reverse fst scored) mr))) @ '' results''))))"
  unfolding assms by (simp only: retrieve_def Let_def split_beta)

text \<open>
  The two ways a retrieve ends: it raises and leaves the scores written so far, or it
  returns its list and logs it.
\<close>

lemma retrieve_cases [case_names raises returns]:
  obtains (raises) cands where
      "set cands \<subseteq> set (records p)"
      "retrieve clk p tt mc mr rw ofl who =
         (Inl OverflowError,
          p\<lparr>records := snd (recompute_scores clk (trust_engine p) cands (records p))\<rparr>)"
  | (returns) cands rs where
      "set cands \<subseteq> set (records p)"
      "retrieve clk p tt mc mr rw ofl who =
         (Inr rs,
          pool_log clk
            (p\<lparr>records := snd (recompute_scores clk (trust_engine p) cands (records p))\<rparr>)
            ''retrieve'' who (map item_xr_id rs)
            (''returned '' @ py_str_nat (length rs) @ '' results''))"
proof -
  define c1 where "c1 =
    (case tt of
       None \<Rightarrow> records p
     | Some t \<Rightarrow>
         if t = [] then records p
         else filter (\<lambda>(k, xr). task_type xr = t \<or> startswith (task_type xr) (t @ ''.''))
                (records p))"
  define cands where "cands =
    (case ofl of None \<Rightarrow> c1 | Some st \<Rightarrow> filter (\<lambda>(k, xr). outcome_status xr = st) c1)"
  define minc where "minc = (case mc of None \<Rightarrow> min_confidence_threshold p | Some m \<Rightarrow> m)"
  note unfold = retrieve_unfold [OF c1_def cands_def minc_def, of clk mr rw who]
  have "set c1 \<subseteq> set (records p)" by (cases tt) (auto simp add: c1_def)
  moreover have "set cands \<subseteq> set c1" by (cases ofl) (auto simp add: cands_def)
  ultimately have sub: "set cands \<subseteq> set (records p)" by simp
  show thesis
  proof (cases "fst (recompute_scores clk (trust_engine p) cands (records p))")
    case (Inl e)
    then have "e = OverflowError" by (rule recompute_scores_raises)
    with Inl have "retrieve clk p tt mc mr rw ofl who =
         (Inl OverflowError,
          p\<lparr>records := snd (recompute_scores clk (trust_engine p) cands (records p))\<rparr>)"
      by (simp add: unfold)
    with sub show thesis by (rule raises)
  next
    case (Inr cs')
    show thesis
    proof (cases "score_candidates clk (trust_engine p) rw
                    (filter (\<lambda>xr. minc \<le> confidence_score xr) cs')")
      case (Inl e)
      then have "e = OverflowError" by (rule score_candidates_raises)
      with Inl Inr have "retrieve clk p tt mc mr rw ofl who =
         (Inl OverflowError,
          p\<lparr>records := snd (recompute_scores clk (trust_engine p) cands (records p))\<rparr>)"
        by (simp add: unfold)
      with sub show thesis by (rule raises)
    next
      case scored: (Inr scored)
      show thesis
        by (rule returns [OF sub]) (simp only: unfold Inr scored sum.case)
    qed
  qed
qed







subsection \<open>The audit log\<close>

text \<open>A retrieve returns when the recency of every stored record is computed.\<close>

lemma retrieve_returns:
  assumes ok: "\<forall>e \<in> set (records p).
      \<exists>rc. compute_recency_factor clk (trust_engine p) (timestamp (snd e)) = Inr rc"
  shows "\<exists>rs. fst (retrieve clk p tt mc mr rw ofl who) = Inr rs"
proof (cases rule: retrieve_cases [of p clk tt mc mr rw ofl who])
  case (raises cands)
  define minc where "minc = (case mc of None \<Rightarrow> min_confidence_threshold p | Some m \<Rightarrow> m)"
  define c1 where "c1 =
    (case tt of
       None \<Rightarrow> records p
     | Some t \<Rightarrow>
         if t = [] then records p
         else filter (\<lambda>(k, xr). task_type xr = t \<or> startswith (task_type xr) (t @ ''.''))
                (records p))"
  define cs where "cs =
    (case ofl of None \<Rightarrow> c1 | Some st \<Rightarrow> filter (\<lambda>(k, xr). outcome_status xr = st) c1)"
  note unfold = retrieve_unfold [OF c1_def cs_def minc_def, of clk mr rw who]
  have "set c1 \<subseteq> set (records p)" by (cases tt) (auto simp add: c1_def)
  moreover have "set cs \<subseteq> set c1" by (cases ofl) (auto simp add: cs_def)
  ultimately have sub: "set cs \<subseteq> set (records p)" by simp
  with ok have all: "\<forall>e \<in> set cs.
      \<exists>rc. compute_recency_factor clk (trust_engine p) (timestamp (snd e)) = Inr rc"
    by blast
  from recompute_scores_returns [OF all, of "records p"] obtain cs' where
    cs': "fst (recompute_scores clk (trust_engine p) cs (records p)) = Inr cs'" by blast
  have "\<exists>rc. compute_recency_factor clk (trust_engine p) (timestamp x) = Inr rc"
    if "x \<in> set (filter (\<lambda>xr. minc \<le> confidence_score xr) cs')" for x
  proof -
    from that have "x \<in> set cs'" by simp
    with recompute_scores_candidates [OF cs']
    obtain k xr c where kx: "(k, xr) \<in> set cs" "x = xr\<lparr>confidence_score := c\<rparr>" by blast
    from all kx(1) show ?thesis by (auto simp add: kx(2))
  qed
  then have "\<forall>x \<in> set (filter (\<lambda>xr. minc \<le> confidence_score xr) cs').
      \<exists>rc. compute_recency_factor clk (trust_engine p) (timestamp x) = Inr rc"
    by blast
  from score_candidates_returns [OF this, of rw] obtain scored where
    "score_candidates clk (trust_engine p) rw (filter (\<lambda>xr. minc \<le> confidence_score xr) cs')
       = Inr scored" by blast
  with cs' show ?thesis by (simp add: unfold)
next
  case (returns cands rs)
  then show ?thesis by simp
qed

text \<open>
  A validate returns when the id is unknown, when the validator is the producing agent,
  and when the recency of the record is computed.
\<close>

lemma validate_returns:
  assumes ok: "\<forall>x0. dict_get (records p) i = Some x0 \<and> v \<noteq> agent_id x0 \<longrightarrow>
      (\<exists>rc. compute_recency_factor clk (trust_engine p) (timestamp x0) = Inr rc)"
  shows "\<exists>res. fst (validate clk p i v vt ev) = Inr res"
proof (cases "dict_get (records p) i")
  case None
  then show ?thesis by (simp add: validate_def)
next
  case (Some x0)
  show ?thesis
  proof (cases "v = agent_id x0")
    case True
    with Some show ?thesis by (simp add: validate_def)
  next
    case False
    from Some False show ?thesis
    proof (cases rule: validate_accepted_cases [where clk = clk and vt = vt and ev = ev])
      case (raises X T)
      with ok Some False show ?thesis by auto
    next
      case (returns X T c rc)
      then show ?thesis by simp
    qed
  qed
qed

lemma retrieve_audit:
  "\<exists>es. audit_log (snd (retrieve clk p tt mc mr rw ofl who)) = audit_log p @ es
       \<and> (\<forall>rs. fst (retrieve clk p tt mc mr rw ofl who) = Inr rs \<longrightarrow> length es = 1)"
proof (cases rule: retrieve_cases [of p clk tt mc mr rw ofl who])
  case (raises cands)
  then show ?thesis by (intro exI [of _ "[]"]) simp
next
  case (returns cands rs)
  then show ?thesis
    by (intro exI [of _ "[\<lparr>log_timestamp = now clk, operation = ''retrieve'', actor = who,
          xr_ids = map item_xr_id rs,
          outcome = ''returned '' @ py_str_nat (length rs) @ '' results''\<rparr>]"])
       (simp add: audit_log_pool_log)
qed

lemma validate_audit:
  "\<exists>es. audit_log (snd (validate clk p i v vt ev)) = audit_log p @ es
       \<and> (\<forall>res. fst (validate clk p i v vt ev) = Inr res \<longrightarrow>
             length es = (case dict_get (records p) i of
                            None \<Rightarrow> 0
                          | Some x0 \<Rightarrow> if v = agent_id x0 then 0 else 1))"
proof (cases "dict_get (records p) i")
  case None
  then show ?thesis by (intro exI [of _ "[]"]) (simp add: validate_def)
next
  case (Some x0)
  show ?thesis
  proof (cases "v = agent_id x0")
    case True
    with Some show ?thesis by (intro exI [of _ "[]"]) (simp add: validate_def)
  next
    case False
    from Some False show ?thesis
    proof (cases rule: validate_accepted_cases [where clk = clk and vt = vt and ev = ev])
      case (raises X T)
      then show ?thesis by (intro exI [of _ "[]"]) simp
    next
      case (returns X T c rc)
      with Some False show ?thesis
        by (intro exI [of _ "[\<lparr>log_timestamp = now clk, operation = ''validate'', actor = v,
              xr_ids = [i],
              outcome = ValidationType_value vt @ '': '' @ take 100 ev\<rparr>]"])
           (simp add: audit_log_pool_log)
    qed
  qed
qed

lemma deposit_audit:
  assumes wf: "pool_wf p"
  shows "\<exists>es. audit_log (deposit_pool (deposit clk p xr)) = audit_log p @ es
       \<and> (\<forall>r x p'. deposit clk p xr = Inr (r, x, p') \<longrightarrow>
             length es =
               (if agent_id xr = [] \<or> task_type xr = [] then 0
                else if max_records p \<le> int (length (records p)) \<and> records p \<noteq> [] then 2
                else 1))"
  using wf
proof (cases rule: deposit_cases [where clk = clk and xr = xr])
  case rejected
  then show ?thesis by (intro exI [of _ "[]"]) auto
next
  case (evict_raise worst recs p' e1)
  show ?thesis by (intro exI [of _ "[e1]"]) (simp add: evict_raise(12) evict_raise(14))
next
  case (evict_return worst recs c rc p' e1 e2)
  show ?thesis
    by (intro exI [of _ "[e1, e2]"])
       (simp add: evict_return(14) evict_return(16) evict_return(1) evict_return(2)
          evict_return(3) evict_return(4))
next
  case plain_raise
  show ?thesis by (intro exI [of _ "[]"]) (simp add: plain_raise(5))
next
  case (plain_return c rc p' e1)
  show ?thesis using plain_return(3)
    by (intro exI [of _ "[e1]"])
       (auto simp add: plain_return(7) plain_return(9) plain_return(1) plain_return(2))
qed

text \<open>
  C2, as the code has it. The audit log only grows, by appended entries, whether a call
  returns or raises. Of the calls that return: a retrieve appends exactly one entry; a
  validate appends one entry when it is accepted and none when the id is unknown or the
  validator is the producing agent; a deposit (on a well-formed pool) appends none when it
  is rejected, two when it is accepted on a pool at capacity that holds a record (the
  eviction and the deposit), and one otherwise. A deposit returns when it is rejected or
  the recency of its record is computed; a retrieve, when the recency of every stored
  record is computed; a validate, when the id is unknown, the validator is the producing
  agent, or the recency of the record is computed.
\<close>

theorem audit_log_growth:
  assumes wf: "pool_wf p"
  shows "(\<exists>es. audit_log (deposit_pool (deposit clk p xr)) = audit_log p @ es
            \<and> (\<forall>r x p'. deposit clk p xr = Inr (r, x, p') \<longrightarrow>
                  length es =
                    (if agent_id xr = [] \<or> task_type xr = [] then 0
                     else if max_records p \<le> int (length (records p)) \<and> records p \<noteq> []
                       then 2
                     else 1)))
       \<and> (agent_id xr = [] \<or> task_type xr = []
            \<or> (\<exists>rc. compute_recency_factor clk (trust_engine p) (timestamp xr) = Inr rc)
          \<longrightarrow> (\<exists>r x p'. deposit clk p xr = Inr (r, x, p')))
       \<and> (\<exists>es. audit_log (snd (retrieve clk p tt mc mr rw ofl who)) = audit_log p @ es
            \<and> (\<forall>rs. fst (retrieve clk p tt mc mr rw ofl who) = Inr rs \<longrightarrow> length es = 1))
       \<and> ((\<forall>e \<in> set (records p).
              \<exists>rc. compute_recency_factor clk (trust_engine p) (timestamp (snd e)) = Inr rc)
          \<longrightarrow> (\<exists>rs. fst (retrieve clk p tt mc mr rw ofl who) = Inr rs))
       \<and> (\<exists>es. audit_log (snd (validate clk p i v vt ev)) = audit_log p @ es
            \<and> (\<forall>res. fst (validate clk p i v vt ev) = Inr res \<longrightarrow>
                  length es = (case dict_get (records p) i of
                                 None \<Rightarrow> 0
                               | Some x0 \<Rightarrow> if v = agent_id x0 then 0 else 1)))
       \<and> ((\<forall>x0. dict_get (records p) i = Some x0 \<and> v \<noteq> agent_id x0 \<longrightarrow>
              (\<exists>rc. compute_recency_factor clk (trust_engine p) (timestamp x0) = Inr rc))
          \<longrightarrow> (\<exists>res. fst (validate clk p i v vt ev) = Inr res))"
proof (intro conjI)
  show "\<exists>es. audit_log (deposit_pool (deposit clk p xr)) = audit_log p @ es
            \<and> (\<forall>r x p'. deposit clk p xr = Inr (r, x, p') \<longrightarrow>
                  length es =
                    (if agent_id xr = [] \<or> task_type xr = [] then 0
                     else if max_records p \<le> int (length (records p)) \<and> records p \<noteq> []
                       then 2
                     else 1))"
    using wf by (rule deposit_audit)
  show "agent_id xr = [] \<or> task_type xr = []
            \<or> (\<exists>rc. compute_recency_factor clk (trust_engine p) (timestamp xr) = Inr rc)
          \<longrightarrow> (\<exists>r x p'. deposit clk p xr = Inr (r, x, p'))"
    using deposit_returns_iff [OF wf, of clk xr] by simp
  show "\<exists>es. audit_log (snd (retrieve clk p tt mc mr rw ofl who)) = audit_log p @ es
            \<and> (\<forall>rs. fst (retrieve clk p tt mc mr rw ofl who) = Inr rs \<longrightarrow> length es = 1)"
    by (rule retrieve_audit)
  show "(\<forall>e \<in> set (records p).
              \<exists>rc. compute_recency_factor clk (trust_engine p) (timestamp (snd e)) = Inr rc)
          \<longrightarrow> (\<exists>rs. fst (retrieve clk p tt mc mr rw ofl who) = Inr rs)"
    using retrieve_returns [of p clk tt mc mr rw ofl who] by (rule impI)
  show "\<exists>es. audit_log (snd (validate clk p i v vt ev)) = audit_log p @ es
            \<and> (\<forall>res. fst (validate clk p i v vt ev) = Inr res \<longrightarrow>
                  length es = (case dict_get (records p) i of
                                 None \<Rightarrow> 0
                               | Some x0 \<Rightarrow> if v = agent_id x0 then 0 else 1))"
    by (rule validate_audit)
  show "(\<forall>x0. dict_get (records p) i = Some x0 \<and> v \<noteq> agent_id x0 \<longrightarrow>
              (\<exists>rc. compute_recency_factor clk (trust_engine p) (timestamp x0) = Inr rc))
          \<longrightarrow> (\<exists>res. fst (validate clk p i v vt ev) = Inr res)"
    using validate_returns [of p i v clk vt ev] by (rule impI)
qed

text \<open>
  The witness: on the example pool, which is at capacity and whose record has a recency,
  an accepted deposit returns and appends two entries, a retrieve returns and appends
  one, and a confirm by another agent returns and appends one.
\<close>

theorem audit_log_growth_witness:
  "pool_wf example_pool
   \<and> (\<exists>rc. compute_recency_factor example_clock (trust_engine example_pool)
              (timestamp example_record) = Inr rc)
   \<and> (\<exists>r x p' es.
         deposit example_clock example_pool (example_record\<lparr>xr_id := ''xr-2''\<rparr>) = Inr (r, x, p')
       \<and> audit_log p' = audit_log example_pool @ es \<and> length es = 2)
   \<and> (\<exists>rs es.
         fst (retrieve example_clock example_pool None None 10 0.5 None ''bob'') = Inr rs
       \<and> audit_log (snd (retrieve example_clock example_pool None None 10 0.5 None ''bob''))
           = audit_log example_pool @ es
       \<and> length es = 1)
   \<and> (\<exists>res es.
         fst (validate example_clock example_pool ''xr-1'' ''bob'' CONFIRM ''ok'') = Inr res
       \<and> audit_log (snd (validate example_clock example_pool ''xr-1'' ''bob'' CONFIRM ''ok''))
           = audit_log example_pool @ es
       \<and> length es = 1)"
proof -
  let ?xr = "example_record\<lparr>xr_id := ''xr-2''\<rparr>"
  have wf: "pool_wf example_pool"
    by (simp add: pool_wf_def example_pool_def example_record_def)
  have rec: "compute_recency_factor example_clock (trust_engine example_pool)
      (timestamp example_record) = Inr (exp (- (1 / 10)))"
    using example_recency
    by (simp add: example_pool_def ExperiencePool_init_def example_record_def)
  have acc: "\<not> (agent_id ?xr = [] \<or> task_type ?xr = [])"
    by (simp add: example_record_def)
  have full: "max_records example_pool \<le> int (length (records example_pool))
      \<and> records example_pool \<noteq> []"
    by (simp add: example_pool_def ExperiencePool_init_def)
  have get: "dict_get (records example_pool) ''xr-1'' = Some example_record"
    by (simp add: example_pool_def)
  have other: "''bob'' \<noteq> agent_id example_record" by (simp add: example_record_def)
  note th = audit_log_growth [OF wf, of example_clock ?xr None None 10 "0.5" None "''bob''"
      "''xr-1''" "''bob''" CONFIRM "''ok''"]
  note d1 = th [THEN conjunct1]
  note d2 = th [THEN conjunct2, THEN conjunct1]
  note r1 = th [THEN conjunct2, THEN conjunct2, THEN conjunct1]
  note r2 = th [THEN conjunct2, THEN conjunct2, THEN conjunct2, THEN conjunct1]
  note v1 = th [THEN conjunct2, THEN conjunct2, THEN conjunct2, THEN conjunct2, THEN conjunct1]
  note v2 = th [THEN conjunct2, THEN conjunct2, THEN conjunct2, THEN conjunct2, THEN conjunct2]
  have "agent_id ?xr = [] \<or> task_type ?xr = []
      \<or> (\<exists>rc. compute_recency_factor example_clock (trust_engine example_pool)
                 (timestamp ?xr) = Inr rc)"
    using rec by simp
  from d2 [THEN mp, OF this] obtain r x p' where
    dep: "deposit example_clock example_pool ?xr = Inr (r, x, p')" by blast
  from d1 obtain es where
    es: "audit_log (deposit_pool (deposit example_clock example_pool ?xr))
           = audit_log example_pool @ es"
    and len: "\<forall>r x p'. deposit example_clock example_pool ?xr = Inr (r, x, p') \<longrightarrow>
        length es =
          (if agent_id ?xr = [] \<or> task_type ?xr = [] then 0
           else if max_records example_pool \<le> int (length (records example_pool))
                   \<and> records example_pool \<noteq> [] then 2
           else 1)"
    by blast
  from len dep have "length es =
          (if agent_id ?xr = [] \<or> task_type ?xr = [] then 0
           else if max_records example_pool \<le> int (length (records example_pool))
                   \<and> records example_pool \<noteq> [] then 2
           else 1)"
    by blast
  with acc full have "length es = 2" by simp
  moreover from es have "audit_log p' = audit_log example_pool @ es" by (simp add: dep)
  ultimately have one: "\<exists>r x p' es.
         deposit example_clock example_pool ?xr = Inr (r, x, p')
       \<and> audit_log p' = audit_log example_pool @ es \<and> length es = 2"
    using dep by blast
  have "\<forall>e \<in> set (records example_pool).
      \<exists>rc. compute_recency_factor example_clock (trust_engine example_pool) (timestamp (snd e))
             = Inr rc"
    using rec by (simp add: example_pool_def)
  from r2 [THEN mp, OF this] obtain rs where
    ret: "fst (retrieve example_clock example_pool None None 10 0.5 None ''bob'') = Inr rs"
    by blast
  from r1 obtain es' where
    "audit_log (snd (retrieve example_clock example_pool None None 10 0.5 None ''bob''))
       = audit_log example_pool @ es'"
    "\<forall>rs. fst (retrieve example_clock example_pool None None 10 0.5 None ''bob'') = Inr rs
       \<longrightarrow> length es' = 1"
    by blast
  with ret have two: "\<exists>rs es.
         fst (retrieve example_clock example_pool None None 10 0.5 None ''bob'') = Inr rs
       \<and> audit_log (snd (retrieve example_clock example_pool None None 10 0.5 None ''bob''))
           = audit_log example_pool @ es
       \<and> length es = 1"
    by blast
  have "\<forall>x0. dict_get (records example_pool) ''xr-1'' = Some x0 \<and> ''bob'' \<noteq> agent_id x0 \<longrightarrow>
      (\<exists>rc. compute_recency_factor example_clock (trust_engine example_pool) (timestamp x0)
             = Inr rc)"
    using rec by (simp add: get)
  from v2 [THEN mp, OF this] obtain res where
    val: "fst (validate example_clock example_pool ''xr-1'' ''bob'' CONFIRM ''ok'') = Inr res"
    by blast
  from v1 obtain es'' where
    a: "audit_log (snd (validate example_clock example_pool ''xr-1'' ''bob'' CONFIRM ''ok''))
       = audit_log example_pool @ es''"
    and l: "\<forall>res. fst (validate example_clock example_pool ''xr-1'' ''bob'' CONFIRM ''ok'') = Inr res
       \<longrightarrow> length es'' = (case dict_get (records example_pool) ''xr-1'' of
                                 None \<Rightarrow> 0
                               | Some x0 \<Rightarrow> if ''bob'' = agent_id x0 then 0 else 1)"
    by blast
  from l val have "length es'' = (case dict_get (records example_pool) ''xr-1'' of
                                 None \<Rightarrow> 0
                               | Some x0 \<Rightarrow> if ''bob'' = agent_id x0 then 0 else 1)"
    by blast
  with get other have "length es'' = 1" by simp
  with a val have three: "\<exists>res es.
         fst (validate example_clock example_pool ''xr-1'' ''bob'' CONFIRM ''ok'') = Inr res
       \<and> audit_log (snd (validate example_clock example_pool ''xr-1'' ''bob'' CONFIRM ''ok''))
           = audit_log example_pool @ es
       \<and> length es = 1"
    by blast
  have "\<exists>rc. compute_recency_factor example_clock (trust_engine example_pool)
              (timestamp example_record) = Inr rc"
    using rec by simp
  with wf one two three show ?thesis by (intro conjI)
qed

text \<open>
  The claim as stated fails: a deposit rejected for a missing agent id, a validate of an
  unknown id and a validate by the producing agent return and leave the audit log as it
  is, and an accepted deposit into the example pool, which is at capacity, appends two
  entries.
\<close>

theorem audit_log_counterexample:
  "(\<exists>r x p'.
       deposit example_clock example_pool (example_record\<lparr>agent_id := []\<rparr>) = Inr (r, x, p')
     \<and> deposit_status r = ''rejected''
     \<and> audit_log p' = audit_log example_pool)
   \<and> fst (validate example_clock example_pool ''xr-9'' ''bob'' CONFIRM [])
       = Inr (ValidateError ''XR not found'')
   \<and> audit_log (snd (validate example_clock example_pool ''xr-9'' ''bob'' CONFIRM []))
       = audit_log example_pool
   \<and> fst (validate example_clock example_pool ''xr-1'' ''alice'' CONFIRM [])
       = Inr (ValidateRejected ''Self-validation not permitted'')
   \<and> audit_log (snd (validate example_clock example_pool ''xr-1'' ''alice'' CONFIRM []))
       = audit_log example_pool
   \<and> (\<exists>r x p'.
         deposit example_clock example_pool (example_record\<lparr>xr_id := ''xr-2''\<rparr>) = Inr (r, x, p')
       \<and> deposit_status r = ''accepted''
       \<and> map operation (audit_log p')
           = map operation (audit_log example_pool) @ [''evict'', ''deposit''])"
proof -
  let ?xr = "example_record\<lparr>xr_id := ''xr-2''\<rparr>"
  have wf: "pool_wf example_pool"
    by (simp add: pool_wf_def example_pool_def example_record_def)
  have "deposit example_clock example_pool (example_record\<lparr>agent_id := []\<rparr>)
      = Inr (DepositRejected ''Missing required fields (agent_id, task_type)'',
             example_record\<lparr>agent_id := []\<rparr>, example_pool)"
    by (simp add: deposit_def)
  then have one: "\<exists>r x p'.
       deposit example_clock example_pool (example_record\<lparr>agent_id := []\<rparr>) = Inr (r, x, p')
     \<and> deposit_status r = ''rejected''
     \<and> audit_log p' = audit_log example_pool"
    by simp
  have get9: "dict_get (records example_pool) ''xr-9'' = None"
    and get1: "dict_get (records example_pool) ''xr-1'' = Some example_record"
    by (simp_all add: example_pool_def)
  have two: "validate example_clock example_pool ''xr-9'' ''bob'' CONFIRM []
      = (Inr (ValidateError ''XR not found''), example_pool)"
    by (simp add: validate_def get9)
  have three: "validate example_clock example_pool ''xr-1'' ''alice'' CONFIRM []
      = (Inr (ValidateRejected ''Self-validation not permitted''), example_pool)"
    by (simp add: validate_def get1) (simp add: example_record_def)
  have rec: "compute_recency_factor example_clock (trust_engine example_pool) (timestamp ?xr)
      = Inr (exp (- (1 / 10)))"
    using example_recency
    by (simp add: example_pool_def ExperiencePool_init_def example_record_def)
  have full: "max_records example_pool \<le> int (length (records example_pool))
      \<and> records example_pool \<noteq> []"
    by (simp add: example_pool_def ExperiencePool_init_def)
  from wf have four: "\<exists>r x p'.
         deposit example_clock example_pool ?xr = Inr (r, x, p')
       \<and> deposit_status r = ''accepted''
       \<and> map operation (audit_log p')
           = map operation (audit_log example_pool) @ [''evict'', ''deposit'']"
  proof (cases rule: deposit_cases [where clk = example_clock and xr = ?xr])
    case rejected
    then show ?thesis by (simp add: example_record_def)
  next
    case (evict_raise worst recs p' e1)
    with rec show ?thesis by simp
  next
    case (evict_return worst recs c rc p' e1 e2)
    show ?thesis
      by (intro exI [of _ "DepositAccepted (xr_id ?xr) (pool_id example_pool) c
              (now example_clock)"]
            exI [of _ "?xr\<lparr>confidence_score := c\<rparr>"] exI [of _ p'])
         (simp add: evict_return(14) evict_return(16) evict_return(17) evict_return(18))
  next
    case plain_raise
    with rec show ?thesis by simp
  next
    case (plain_return c rc p' e1)
    with full show ?thesis by simp
  qed
  from one two three four show ?thesis by (intro conjI) simp_all
qed

subsection \<open>Well-formedness is kept by every operation\<close>

lemma recompute_scores_wf:
  assumes "distinct (map fst recs)"
    and "list_all (\<lambda>(k, x). xr_id x = k) recs"
    and "list_all (\<lambda>(k, x). xr_id x = k) cs"
  shows "distinct (map fst (snd (recompute_scores clk te cs recs)))
       \<and> list_all (\<lambda>(k, x). xr_id x = k) (snd (recompute_scores clk te cs recs))"
  using assms
proof (induction cs arbitrary: recs)
  case Nil
  then show ?case by simp
next
  case (Cons e cs)
  obtain k xr where e: "e = (k, xr)" by (cases e)
  show ?case
  proof (cases "compute_trust_score clk te xr (dict_values recs)")
    case (Inl err)
    with Cons.prems show ?thesis by (simp add: e)
  next
    case (Inr c)
    define xr1 where "xr1 = xr\<lparr>confidence_score := c\<rparr>"
    have unfold: "snd (recompute_scores clk te (e # cs) recs)
        = snd (recompute_scores clk te cs (dict_set recs k xr1))"
      unfolding e recompute_scores_Cons_Inr [OF Inr] xr1_def by simp
    have key: "xr_id xr1 = k" using Cons.prems(3) by (simp add: e xr1_def)
    have d: "distinct (map fst (dict_set recs k xr1))"
      using Cons.prems(1) by (rule distinct_dict_set)
    have l: "list_all (\<lambda>(k, x). xr_id x = k) (dict_set recs k xr1)"
      using Cons.prems(2) by (rule list_all_dict_set) (simp add: key)
    have c: "list_all (\<lambda>(k, x). xr_id x = k) cs" using Cons.prems(3) by simp
    show ?thesis unfolding unfold using d l c by (rule Cons.IH)
  qed
qed

lemma retrieve_wf:
  assumes wf: "pool_wf p"
  shows "pool_wf (snd (retrieve clk p tt mc mr rw ofl who))"
proof -
  have d: "distinct (map fst (records p))"
    and l: "list_all (\<lambda>(k, x). xr_id x = k) (records p)"
    using wf by (simp_all add: pool_wf_def)
  have kept: "distinct (map fst (snd (recompute_scores clk (trust_engine p) cands (records p))))
       \<and> list_all (\<lambda>(k, x). xr_id x = k)
           (snd (recompute_scores clk (trust_engine p) cands (records p)))"
    if sub: "set cands \<subseteq> set (records p)" for cands
  proof -
    have c: "list_all (\<lambda>(k, x). xr_id x = k) cands"
      using l sub by (auto simp add: list_all_iff)
    from d l c show ?thesis by (rule recompute_scores_wf)
  qed
  show ?thesis
  proof (cases rule: retrieve_cases [of p clk tt mc mr rw ofl who])
    case (raises cands)
    from kept [OF raises(1)] show ?thesis by (simp add: raises(2) pool_wf_def)
  next
    case (returns cands rs)
    from kept [OF returns(1)] show ?thesis by (simp add: returns(2) pool_wf_def)
  qed
qed

lemma validate_wf:
  assumes wf: "pool_wf p"
  shows "pool_wf (snd (validate clk p i v vt ev))"
proof (cases "dict_get (records p) i")
  case None
  then show ?thesis using wf by (simp add: validate_def)
next
  case (Some xr)
  have key: "xr_id xr = i" using dict_get_Some_mem [OF Some] pool_wf_key [OF wf] by simp
  have d: "distinct (map fst (records p))"
    and l: "list_all (\<lambda>(k, x). xr_id x = k) (records p)"
    using wf by (simp_all add: pool_wf_def)
  show ?thesis
  proof (cases "v = agent_id xr")
    case True
    with Some show ?thesis using wf by (simp add: validate_def)
  next
    case False
    from Some False show ?thesis
    proof (cases rule: validate_accepted_cases [where clk = clk and vt = vt and ev = ev])
      case (raises X T)
      have "xr_id X = i" by (simp add: raises(1) key)
      with d l show ?thesis
        by (simp add: raises(4) pool_wf_def distinct_dict_set list_all_dict_set)
    next
      case (returns X T c rc)
      have "xr_id (X\<lparr>confidence_score := c\<rparr>) = i" by (simp add: returns(1) key)
      with d l show ?thesis
        by (simp add: returns(6) pool_wf_def distinct_dict_set list_all_dict_set)
    qed
  qed
qed

end
